theory Spec2Isabelle
  imports Main "HOL-Library.Multiset"
begin

section \<open>Strings and formatting\<close>

text \<open>
  Go strings are byte sequences; they are modelled as \<open>string\<close> (a list of 8-bit
  characters). \<open>Join\<close> is \<^verbatim>\<open>strings.Join\<close>.
\<close>

fun Join :: "string list \<Rightarrow> string \<Rightarrow> string" where
  "Join [] sep = []"
| "Join [x] sep = x"
| "Join (x # y # ys) sep = x @ sep @ Join (y # ys) sep"

text \<open>Decimal digits of a natural number, and \<^verbatim>\<open>%d\<close> of an integer.\<close>

fun digits :: "nat \<Rightarrow> string" where
  "digits n =
     (if n < 10 then [''0123456789'' ! n]
      else digits (n div 10) @ [''0123456789'' ! (n mod 10)])"

definition fmt_d :: "int \<Rightarrow> string" where
  "fmt_d i = (if i < 0 then CHR ''-'' # digits (nat (- i)) else digits (nat i))"

text \<open>
  \<^verbatim>\<open>strings.ReplaceAll(v, "'", "''")\<close>: every single quote is doubled.
\<close>

definition escape_quotes :: "string \<Rightarrow> string" where
  "escape_quotes v = concat (map (\<lambda>c. if c = CHR 0x27 then [CHR 0x27, CHR 0x27] else [c]) v)"

section \<open>The schema model (package schema)\<close>

record Column =
  Column_Name :: string
  Column_Type :: string
  Column_Nullable :: bool
  Column_DefaultValue :: "string option"
  Column_AutoIncrement :: bool
  Column_Position :: int

record Index =
  Index_Name :: string
  Index_Columns :: "string list"
  Index_Unique :: bool
  Index_Primary :: bool
  Index_Type :: string

record ForeignKey =
  ForeignKey_Name :: string
  ForeignKey_Column :: string
  ForeignKey_ReferencedTable :: string
  ForeignKey_ReferencedColumn :: string
  ForeignKey_OnDelete :: string
  ForeignKey_OnUpdate :: string

record TableSchema =
  TableSchema_Name :: string
  TableSchema_Columns :: "Column list"
  TableSchema_Indexes :: "Index list"
  TableSchema_ForeignKeys :: "ForeignKey list"

text \<open>
  A row value is Go's \<^verbatim>\<open>interface{}\<close>; the model has the scalar kinds of the data
  model. A \<^verbatim>\<open>float64\<close> is kept abstract (type \<open>'f\<close>): how the Go library prints it is
  a parameter, see \<open>float_fmt\<close> below.
\<close>

datatype 'f val = VNil | VBool bool | VInt int | VFloat 'f | VString string

text \<open>
  \<^verbatim>\<open>type Row map[string]interface{}\<close>. \<open>row c = None\<close>: the key is absent;
  \<open>row c = Some VNil\<close>: the key is present and holds nil.
\<close>

type_synonym 'f Row = "string \<rightharpoonup> 'f val"

text \<open>
  The tables of a snapshot are held by pointer (\<^verbatim>\<open>map[string]*schema.Table\<close>);
  \<open>LoadSnapshot\<close> stores no nil pointer, and the model has none.
\<close>

record 'f Table =
  Table_Schema :: TableSchema
  Table_Data :: "'f Row list"

record 'f Snapshot =
  Snapshot_Metadata :: "string \<rightharpoonup> string"
  Snapshot_Tables :: "string \<rightharpoonup> 'f Table"

section \<open>Iterating over a Go map\<close>

text \<open>
  The order in which \<^verbatim>\<open>for k, v := range m\<close> visits a map is not fixed by Go. Each
  function below that ranges over a map takes the order of that one execution of the
  loop as an argument: a list \<open>ks\<close> of keys. \<open>range_pairs ks m\<close> is the sequence of
  pairs the loop body sees. The order describes a run of the program exactly when it
  lists every key of the map once (\<open>is_range_order\<close>).
\<close>

definition range_pairs :: "string list \<Rightarrow> (string \<rightharpoonup> 'v) \<Rightarrow> (string \<times> 'v) list" where
  "range_pairs ks m = List.map_filter (\<lambda>k. map_option (Pair k) (m k)) ks"

definition is_range_order :: "string list \<Rightarrow> (string \<rightharpoonup> 'v) \<Rightarrow> bool" where
  "is_range_order ks m = (distinct ks \<and> set ks = dom m)"

section \<open>Schema comparison (package diff)\<close>

text \<open>
  \<^verbatim>\<open>type Action string\<close> with its three constants; the program makes no other value.
  A field of pointer type is an \<open>option\<close>, \<open>None\<close> for nil.
\<close>

datatype Action = ActionAdd | ActionDrop | ActionModify

record ColumnChange =
  ColumnChange_ColumnName :: string
  ColumnChange_Action :: Action
  ColumnChange_OldColumn :: "Column option"
  ColumnChange_NewColumn :: "Column option"

record IndexChange =
  IndexChange_IndexName :: string
  IndexChange_Action :: Action
  IndexChange_OldIndex :: "Index option"
  IndexChange_NewIndex :: "Index option"

record ForeignKeyChange =
  ForeignKeyChange_FKName :: string
  ForeignKeyChange_Action :: Action
  ForeignKeyChange_OldForeignKey :: "ForeignKey option"
  ForeignKeyChange_NewForeignKey :: "ForeignKey option"

record SchemaDiff =
  SchemaDiff_TableName :: string
  SchemaDiff_Action :: Action
  SchemaDiff_OldSchema :: "TableSchema option"
  SchemaDiff_NewSchema :: "TableSchema option"
  SchemaDiff_ColumnChanges :: "ColumnChange list"
  SchemaDiff_IndexChanges :: "IndexChange list"
  SchemaDiff_ForeignKeyChanges :: "ForeignKeyChange list"

definition columnsEqual :: "Column \<Rightarrow> Column \<Rightarrow> bool" where
  "columnsEqual a b =
     (if Column_Name a \<noteq> Column_Name b \<or> Column_Type a \<noteq> Column_Type b
         \<or> Column_Nullable a \<noteq> Column_Nullable b
         \<or> Column_AutoIncrement a \<noteq> Column_AutoIncrement b then False
      else if (Column_DefaultValue a = None) \<noteq> (Column_DefaultValue b = None) then False
      else (case (Column_DefaultValue a, Column_DefaultValue b) of
              (Some da, Some db) \<Rightarrow> if da \<noteq> db then False else True
            | _ \<Rightarrow> True))"

text \<open>
  The loop of \<open>indexesEqual\<close> over \<^verbatim>\<open>a.Columns\<close>, entered only when both lists have
  the same length.
\<close>

fun index_columns_loop :: "string list \<Rightarrow> string list \<Rightarrow> bool" where
  "index_columns_loop (x # xs) (y # ys) = (if x \<noteq> y then False else index_columns_loop xs ys)"
| "index_columns_loop _ _ = True"

definition indexesEqual :: "Index \<Rightarrow> Index \<Rightarrow> bool" where
  "indexesEqual a b =
     (if Index_Name a \<noteq> Index_Name b \<or> Index_Unique a \<noteq> Index_Unique b
         \<or> Index_Primary a \<noteq> Index_Primary b then False
      else if length (Index_Columns a) \<noteq> length (Index_Columns b) then False
      else index_columns_loop (Index_Columns a) (Index_Columns b))"

definition foreignKeysEqual :: "ForeignKey \<Rightarrow> ForeignKey \<Rightarrow> bool" where
  "foreignKeysEqual a b =
     (ForeignKey_Name a = ForeignKey_Name b \<and>
      ForeignKey_Column a = ForeignKey_Column b \<and>
      ForeignKey_ReferencedTable a = ForeignKey_ReferencedTable b \<and>
      ForeignKey_ReferencedColumn a = ForeignKey_ReferencedColumn b \<and>
      ForeignKey_OnDelete a = ForeignKey_OnDelete b \<and>
      ForeignKey_OnUpdate a = ForeignKey_OnUpdate b)"

text \<open>
  \<open>compareSchemas\<close> runs the same three steps for columns, indexes and foreign keys:
  index the old and the new slice by name (a later entry of the same name replaces an
  earlier one), range over the new map appending MODIFY and ADD changes, then range
  over the old map appending DROP changes. The three copies of the source differ in
  the element type, the equality and the change struct they build (\<open>mk\<close>).
\<close>

definition by_name :: "('a \<Rightarrow> string) \<Rightarrow> 'a list \<Rightarrow> (string \<rightharpoonup> 'a)" where
  "by_name name xs = fold (\<lambda>x m. m(name x \<mapsto> x)) xs Map.empty"

definition added_modified ::
  "('a \<Rightarrow> 'a \<Rightarrow> bool) \<Rightarrow> (string \<Rightarrow> Action \<Rightarrow> 'a option \<Rightarrow> 'a option \<Rightarrow> 'c) \<Rightarrow>
   (string \<rightharpoonup> 'a) \<Rightarrow> (string \<times> 'a) list \<Rightarrow> 'c list \<Rightarrow> 'c list" where
  "added_modified eq mk oldM kvs changes =
     fold (\<lambda>(name, newX) acc.
        case oldM name of
          Some oldX \<Rightarrow>
            if \<not> eq oldX newX then acc @ [mk name ActionModify (Some oldX) (Some newX)]
            else acc
        | None \<Rightarrow> acc @ [mk name ActionAdd None (Some newX)]) kvs changes"

definition dropped ::
  "(string \<Rightarrow> Action \<Rightarrow> 'a option \<Rightarrow> 'a option \<Rightarrow> 'c) \<Rightarrow>
   (string \<rightharpoonup> 'a) \<Rightarrow> (string \<times> 'a) list \<Rightarrow> 'c list \<Rightarrow> 'c list" where
  "dropped mk newM kvs changes =
     fold (\<lambda>(name, oldX) acc.
        case newM name of
          Some _ \<Rightarrow> acc
        | None \<Rightarrow> acc @ [mk name ActionDrop (Some oldX) None]) kvs changes"

definition mkColumnChange ::
  "string \<Rightarrow> Action \<Rightarrow> Column option \<Rightarrow> Column option \<Rightarrow> ColumnChange" where
  "mkColumnChange n a old new =
     \<lparr>ColumnChange_ColumnName = n, ColumnChange_Action = a,
      ColumnChange_OldColumn = old, ColumnChange_NewColumn = new\<rparr>"

definition mkIndexChange ::
  "string \<Rightarrow> Action \<Rightarrow> Index option \<Rightarrow> Index option \<Rightarrow> IndexChange" where
  "mkIndexChange n a old new =
     \<lparr>IndexChange_IndexName = n, IndexChange_Action = a,
      IndexChange_OldIndex = old, IndexChange_NewIndex = new\<rparr>"

definition mkForeignKeyChange ::
  "string \<Rightarrow> Action \<Rightarrow> ForeignKey option \<Rightarrow> ForeignKey option \<Rightarrow> ForeignKeyChange" where
  "mkForeignKeyChange n a old new =
     \<lparr>ForeignKeyChange_FKName = n, ForeignKeyChange_Action = a,
      ForeignKeyChange_OldForeignKey = old, ForeignKeyChange_NewForeignKey = new\<rparr>"

text \<open>The orders of the six range loops of one call of \<open>compareSchemas\<close>.\<close>

record schema_orders =
  newColumns_order :: "string list"
  oldColumns_order :: "string list"
  newIndexes_order :: "string list"
  oldIndexes_order :: "string list"
  newFKs_order :: "string list"
  oldFKs_order :: "string list"

definition compareSchemas ::
  "schema_orders \<Rightarrow> TableSchema \<Rightarrow> TableSchema \<Rightarrow> SchemaDiff option" where
  "compareSchemas ord old new =
     (let oldColumns = by_name Column_Name (TableSchema_Columns old);
          newColumns = by_name Column_Name (TableSchema_Columns new);
          columnChanges =
            dropped mkColumnChange newColumns
              (range_pairs (oldColumns_order ord) oldColumns)
              (added_modified columnsEqual mkColumnChange oldColumns
                (range_pairs (newColumns_order ord) newColumns) []);
          oldIndexes = by_name Index_Name (TableSchema_Indexes old);
          newIndexes = by_name Index_Name (TableSchema_Indexes new);
          indexChanges =
            dropped mkIndexChange newIndexes
              (range_pairs (oldIndexes_order ord) oldIndexes)
              (added_modified indexesEqual mkIndexChange oldIndexes
                (range_pairs (newIndexes_order ord) newIndexes) []);
          oldFKs = by_name ForeignKey_Name (TableSchema_ForeignKeys old);
          newFKs = by_name ForeignKey_Name (TableSchema_ForeignKeys new);
          foreignKeyChanges =
            dropped mkForeignKeyChange newFKs
              (range_pairs (oldFKs_order ord) oldFKs)
              (added_modified foreignKeysEqual mkForeignKeyChange oldFKs
                (range_pairs (newFKs_order ord) newFKs) [])
      in if length columnChanges = 0 \<and> length indexChanges = 0
            \<and> length foreignKeyChanges = 0 then None
         else Some \<lparr>SchemaDiff_TableName = TableSchema_Name new,
                    SchemaDiff_Action = ActionModify,
                    SchemaDiff_OldSchema = Some old,
                    SchemaDiff_NewSchema = Some new,
                    SchemaDiff_ColumnChanges = columnChanges,
                    SchemaDiff_IndexChanges = indexChanges,
                    SchemaDiff_ForeignKeyChanges = foreignKeyChanges\<rparr>)"

definition schema_orders_ok :: "schema_orders \<Rightarrow> TableSchema \<Rightarrow> TableSchema \<Rightarrow> bool" where
  "schema_orders_ok ord old new =
     (is_range_order (newColumns_order ord) (by_name Column_Name (TableSchema_Columns new)) \<and>
      is_range_order (oldColumns_order ord) (by_name Column_Name (TableSchema_Columns old)) \<and>
      is_range_order (newIndexes_order ord) (by_name Index_Name (TableSchema_Indexes new)) \<and>
      is_range_order (oldIndexes_order ord) (by_name Index_Name (TableSchema_Indexes old)) \<and>
      is_range_order (newFKs_order ord) (by_name ForeignKey_Name (TableSchema_ForeignKeys new)) \<and>
      is_range_order (oldFKs_order ord) (by_name ForeignKey_Name (TableSchema_ForeignKeys old)))"

section \<open>Row values and their text forms\<close>

text \<open>
  How the Go library prints a \<^verbatim>\<open>float64\<close>: \<open>float_json\<close> is \<^verbatim>\<open>json.Marshal\<close> (which
  fails on NaN and the infinities: \<open>None\<close>), \<open>float_v\<close> is \<^verbatim>\<open>%v\<close> and \<open>float_f\<close> is
  \<^verbatim>\<open>%f\<close>.
\<close>

record 'f float_fmt =
  float_json :: "'f \<Rightarrow> string option"
  float_v :: "'f \<Rightarrow> string"
  float_f :: "'f \<Rightarrow> string"

text \<open>
  The string encoding of \<^verbatim>\<open>encoding/json\<close> (HTML escaping on, as \<^verbatim>\<open>json.Marshal\<close> has
  it; backspace and form feed written as \<^verbatim>\<open>\b\<close> and \<^verbatim>\<open>\f\<close>, as Go does from 1.22 on),
  on the bytes of a valid UTF-8 string: a byte from 0x80 on is copied, except for the
  line separators U+2028 and U+2029. Go writes the replacement character U+FFFD for a
  byte that is not valid UTF-8; that case is outside the model. No statement below
  depends on how a string is escaped, only on the quotes around it.
\<close>

definition hex_digit :: "nat \<Rightarrow> char" where
  "hex_digit n = ''0123456789abcdef'' ! n"

fun json_escape :: "string \<Rightarrow> string" where
  "json_escape [] = []"
| "json_escape (c # cs) =
     (if c = CHR 0x22 then [CHR 0x5C, CHR 0x22] @ json_escape cs
      else if c = CHR 0x5C then [CHR 0x5C, CHR 0x5C] @ json_escape cs
      else if c = CHR 0x08 then [CHR 0x5C, CHR ''b''] @ json_escape cs
      else if c = CHR 0x0C then [CHR 0x5C, CHR ''f''] @ json_escape cs
      else if c = CHR 0x0A then [CHR 0x5C, CHR ''n''] @ json_escape cs
      else if c = CHR 0x0D then [CHR 0x5C, CHR ''r''] @ json_escape cs
      else if c = CHR 0x09 then [CHR 0x5C, CHR ''t''] @ json_escape cs
      else if (of_char c :: nat) < 0x20 \<or> c = CHR ''<'' \<or> c = CHR ''>'' \<or> c = CHR ''&'' then
        [CHR 0x5C] @ ''u00'' @ [hex_digit (of_char c div 16), hex_digit (of_char c mod 16)]
          @ json_escape cs
      else if c = CHR 0xE2 \<and> take 2 cs = [CHR 0x80, CHR 0xA8] then
        [CHR 0x5C] @ ''u2028'' @ json_escape (drop 2 cs)
      else if c = CHR 0xE2 \<and> take 2 cs = [CHR 0x80, CHR 0xA9] then
        [CHR 0x5C] @ ''u2029'' @ json_escape (drop 2 cs)
      else c # json_escape cs)"

text \<open>\<^verbatim>\<open>json.Marshal(v)\<close> of one row value; \<open>None\<close> is the error return.\<close>

fun json_Marshal :: "'f float_fmt \<Rightarrow> 'f val \<Rightarrow> string option" where
  "json_Marshal F VNil = Some ''null''"
| "json_Marshal F (VBool b) = Some (if b then ''true'' else ''false'')"
| "json_Marshal F (VInt i) = Some (fmt_d i)"
| "json_Marshal F (VFloat x) = float_json F x"
| "json_Marshal F (VString s) = Some ([CHR 0x22] @ json_escape s @ [CHR 0x22])"

text \<open>
  \<^verbatim>\<open>jsonA, _ := json.Marshal(valA); string(jsonA)\<close>: the error is dropped and the bytes
  are nil then, so the text is empty.
\<close>

definition json_text :: "'f float_fmt \<Rightarrow> 'f val \<Rightarrow> string" where
  "json_text F v = (case json_Marshal F v of Some s \<Rightarrow> s | None \<Rightarrow> [])"

text \<open>\<^verbatim>\<open>json.Marshal\<close> of a \<^verbatim>\<open>[]interface{}\<close>: it fails when an element fails.\<close>

definition json_Marshal_slice :: "'f float_fmt \<Rightarrow> 'f val list \<Rightarrow> string option" where
  "json_Marshal_slice F vs =
     map_option (\<lambda>parts. ''['' @ Join parts '','' @ '']'') (those (map (json_Marshal F) vs))"

text \<open>\<^verbatim>\<open>fmt.Sprintf("%v", v)\<close> of a row value and of a \<^verbatim>\<open>[]interface{}\<close>.\<close>

fun fmt_v :: "'f float_fmt \<Rightarrow> 'f val \<Rightarrow> string" where
  "fmt_v F VNil = ''<nil>''"
| "fmt_v F (VBool b) = (if b then ''true'' else ''false'')"
| "fmt_v F (VInt i) = fmt_d i"
| "fmt_v F (VFloat x) = float_v F x"
| "fmt_v F (VString s) = s"

definition fmt_v_slice :: "'f float_fmt \<Rightarrow> 'f val list \<Rightarrow> string" where
  "fmt_v_slice F vs = ''['' @ Join (map (fmt_v F) vs) '' '' @ '']''"

section \<open>Data comparison (package diff)\<close>

record 'f RowModification =
  RowModification_OldRow :: "'f Row"
  RowModification_NewRow :: "'f Row"

record 'f DataDiff =
  DataDiff_TableName :: string
  DataDiff_RowsAdded :: "'f Row list"
  DataDiff_RowsDeleted :: "'f Row list"
  DataDiff_RowsModified :: "'f RowModification list"

fun getPrimaryKeyColumns_loop :: "Index list \<Rightarrow> string list" where
  "getPrimaryKeyColumns_loop [] = []"
| "getPrimaryKeyColumns_loop (index # rest) =
     (if Index_Primary index then Index_Columns index else getPrimaryKeyColumns_loop rest)"

definition getPrimaryKeyColumns :: "TableSchema \<Rightarrow> string list" where
  "getPrimaryKeyColumns tableSchema = getPrimaryKeyColumns_loop (TableSchema_Indexes tableSchema)"

text \<open>
  \<^verbatim>\<open>row[col]\<close> of a key that is absent is the nil interface value.
\<close>

definition row_get :: "'f Row \<Rightarrow> string \<Rightarrow> 'f val" where
  "row_get row col = (case row col of None \<Rightarrow> VNil | Some v \<Rightarrow> v)"

definition rowKey :: "'f float_fmt \<Rightarrow> 'f Row \<Rightarrow> string list \<Rightarrow> string" where
  "rowKey F row pkColumns =
     (let keyParts = map (row_get row) pkColumns
      in case json_Marshal_slice F keyParts of
           None \<Rightarrow> fmt_v_slice F keyParts
         | Some keyJSON \<Rightarrow> keyJSON)"

fun rowsEqual_loop :: "'f float_fmt \<Rightarrow> (string \<times> 'f val) list \<Rightarrow> 'f Row \<Rightarrow> bool" where
  "rowsEqual_loop F [] b = True"
| "rowsEqual_loop F ((key, valA) # kvs) b =
     (case b key of
        None \<Rightarrow> False
      | Some valB \<Rightarrow>
          if json_text F valA \<noteq> json_text F valB then False else rowsEqual_loop F kvs b)"

text \<open>
  \<open>ks\<close> is the order of the range over \<open>a\<close>; \<^verbatim>\<open>len\<close> of a map is its number of keys
  (a Go map is finite; the statements about \<open>rowsEqual\<close> assume it where it matters).
\<close>

definition rowsEqual :: "'f float_fmt \<Rightarrow> string list \<Rightarrow> 'f Row \<Rightarrow> 'f Row \<Rightarrow> bool" where
  "rowsEqual F ks a b =
     (if card (dom a) \<noteq> card (dom b) then False
      else rowsEqual_loop F (range_pairs ks a) b)"

text \<open>
  The orders of one call of \<open>compareData\<close>: of the range over \<open>newRows\<close>, of the range
  over \<open>oldRows\<close>, and, for each old row handed to \<open>rowsEqual\<close>, of the range over it
  (each old row is compared at most once in a call, so a function of the row fixes one
  order per execution of that loop).
\<close>

record 'f data_orders =
  newRows_order :: "string list"
  oldRows_order :: "string list"
  rowsEqual_order :: "'f Row \<Rightarrow> string list"

definition rows_by_key :: "'f float_fmt \<Rightarrow> string list \<Rightarrow> 'f Row list \<Rightarrow> (string \<rightharpoonup> 'f Row)" where
  "rows_by_key F pkColumns rows = fold (\<lambda>row m. m(rowKey F row pkColumns \<mapsto> row)) rows Map.empty"

definition added_modified_rows ::
  "'f float_fmt \<Rightarrow> 'f data_orders \<Rightarrow> (string \<rightharpoonup> 'f Row) \<Rightarrow> (string \<times> 'f Row) list \<Rightarrow>
   'f DataDiff \<Rightarrow> 'f DataDiff" where
  "added_modified_rows F ord oldRows kvs diff =
     fold (\<lambda>(key, newRow) diff.
        case oldRows key of
          Some oldRow \<Rightarrow>
            if \<not> rowsEqual F (rowsEqual_order ord oldRow) oldRow newRow then
              diff\<lparr>DataDiff_RowsModified := DataDiff_RowsModified diff @
                [\<lparr>RowModification_OldRow = oldRow, RowModification_NewRow = newRow\<rparr>]\<rparr>
            else diff
        | None \<Rightarrow> diff\<lparr>DataDiff_RowsAdded := DataDiff_RowsAdded diff @ [newRow]\<rparr>) kvs diff"

definition deleted_rows ::
  "(string \<rightharpoonup> 'f Row) \<Rightarrow> (string \<times> 'f Row) list \<Rightarrow> 'f DataDiff \<Rightarrow> 'f DataDiff" where
  "deleted_rows newRows kvs diff =
     fold (\<lambda>(key, oldRow) diff.
        case newRows key of
          Some _ \<Rightarrow> diff
        | None \<Rightarrow> diff\<lparr>DataDiff_RowsDeleted := DataDiff_RowsDeleted diff @ [oldRow]\<rparr>) kvs diff"

text \<open>\<open>None\<close> is the nil \<^verbatim>\<open>*DataDiff\<close>.\<close>

definition compareData ::
  "'f float_fmt \<Rightarrow> 'f data_orders \<Rightarrow> string \<Rightarrow> 'f Row list \<Rightarrow> 'f Row list \<Rightarrow> TableSchema \<Rightarrow>
   'f DataDiff option" where
  "compareData F ord tableName oldData newData tableSchema =
     (let diff = \<lparr>DataDiff_TableName = tableName, DataDiff_RowsAdded = [],
                  DataDiff_RowsDeleted = [], DataDiff_RowsModified = []\<rparr>;
          pkColumns = getPrimaryKeyColumns tableSchema
      in if length pkColumns = 0 then
           (if length oldData \<noteq> length newData then
              Some (diff\<lparr>DataDiff_RowsDeleted := oldData, DataDiff_RowsAdded := newData\<rparr>)
            else Some diff)
         else
           (let oldRows = rows_by_key F pkColumns oldData;
                newRows = rows_by_key F pkColumns newData;
                diff1 = added_modified_rows F ord oldRows
                          (range_pairs (newRows_order ord) newRows) diff;
                diff2 = deleted_rows newRows (range_pairs (oldRows_order ord) oldRows) diff1
            in if length (DataDiff_RowsAdded diff2) = 0 \<and> length (DataDiff_RowsDeleted diff2) = 0
                  \<and> length (DataDiff_RowsModified diff2) = 0 then None
               else Some diff2))"

definition data_orders_ok ::
  "'f float_fmt \<Rightarrow> 'f data_orders \<Rightarrow> 'f Row list \<Rightarrow> 'f Row list \<Rightarrow> TableSchema \<Rightarrow> bool" where
  "data_orders_ok F ord oldData newData tableSchema =
     (let pkColumns = getPrimaryKeyColumns tableSchema
      in is_range_order (newRows_order ord) (rows_by_key F pkColumns newData) \<and>
         is_range_order (oldRows_order ord) (rows_by_key F pkColumns oldData) \<and>
         list_all (\<lambda>row. is_range_order (rowsEqual_order ord row) row) oldData)"

section \<open>Comparing two snapshots (package diff)\<close>

record 'f DiffResult =
  DiffResult_SchemaDiffs :: "string \<rightharpoonup> SchemaDiff"
  DiffResult_DataDiffs :: "string \<rightharpoonup> 'f DataDiff"

text \<open>
  The orders of one call of \<open>Compare\<close>: of its three range loops, and for each table
  name those of the calls of \<open>compareSchemas\<close> and \<open>compareData\<close> made for it (the loop
  body runs once per name).
\<close>

record 'f compare_orders =
  snap1_order :: "string list"
  snap2_order :: "string list"
  tableNames_order :: "string list"
  table_schema_orders :: "string \<Rightarrow> schema_orders"
  table_data_orders :: "string \<Rightarrow> 'f data_orders"

definition add_names :: "(string \<times> 'v) list \<Rightarrow> (string \<rightharpoonup> bool) \<Rightarrow> (string \<rightharpoonup> bool)" where
  "add_names kvs tableNames = fold (\<lambda>(name, _) m. m(name \<mapsto> True)) kvs tableNames"

definition tableNames_of :: "'f compare_orders \<Rightarrow> 'f Snapshot \<Rightarrow> 'f Snapshot \<Rightarrow> (string \<rightharpoonup> bool)" where
  "tableNames_of ord snap1 snap2 =
     add_names (range_pairs (snap2_order ord) (Snapshot_Tables snap2))
       (add_names (range_pairs (snap1_order ord) (Snapshot_Tables snap1)) Map.empty)"

text \<open>
  The body of the loop over \<open>tableNames\<close>. A name held by neither snapshot is never
  visited (\<open>tableNames\<close> holds keys of the two maps only); the source would dereference
  a nil \<^verbatim>\<open>*Table\<close> there, the model leaves the result as it is.
\<close>

definition Compare_table ::
  "'f float_fmt \<Rightarrow> 'f compare_orders \<Rightarrow> 'f Snapshot \<Rightarrow> 'f Snapshot \<Rightarrow> string \<Rightarrow>
   'f DiffResult \<Rightarrow> 'f DiffResult" where
  "Compare_table F ord snap1 snap2 tableName result =
     (case Snapshot_Tables snap1 tableName of
        None \<Rightarrow>
          (case Snapshot_Tables snap2 tableName of
             None \<Rightarrow> result
           | Some table2 \<Rightarrow>
               result\<lparr>DiffResult_SchemaDiffs := (DiffResult_SchemaDiffs result)(tableName \<mapsto>
                 \<lparr>SchemaDiff_TableName = tableName, SchemaDiff_Action = ActionAdd,
                  SchemaDiff_OldSchema = None, SchemaDiff_NewSchema = Some (Table_Schema table2),
                  SchemaDiff_ColumnChanges = [], SchemaDiff_IndexChanges = [],
                  SchemaDiff_ForeignKeyChanges = []\<rparr>)\<rparr>)
      | Some table1 \<Rightarrow>
          (case Snapshot_Tables snap2 tableName of
             None \<Rightarrow>
               result\<lparr>DiffResult_SchemaDiffs := (DiffResult_SchemaDiffs result)(tableName \<mapsto>
                 \<lparr>SchemaDiff_TableName = tableName, SchemaDiff_Action = ActionDrop,
                  SchemaDiff_OldSchema = Some (Table_Schema table1), SchemaDiff_NewSchema = None,
                  SchemaDiff_ColumnChanges = [], SchemaDiff_IndexChanges = [],
                  SchemaDiff_ForeignKeyChanges = []\<rparr>)\<rparr>
           | Some table2 \<Rightarrow>
               (let result1 =
                      (case compareSchemas (table_schema_orders ord tableName)
                              (Table_Schema table1) (Table_Schema table2) of
                         Some schemaDiff \<Rightarrow>
                           result\<lparr>DiffResult_SchemaDiffs :=
                             (DiffResult_SchemaDiffs result)(tableName \<mapsto> schemaDiff)\<rparr>
                       | None \<Rightarrow> result)
                in case compareData F (table_data_orders ord tableName) tableName
                          (Table_Data table1) (Table_Data table2) (Table_Schema table2) of
                     Some dataDiff \<Rightarrow>
                       result1\<lparr>DiffResult_DataDiffs :=
                         (DiffResult_DataDiffs result1)(tableName \<mapsto> dataDiff)\<rparr>
                   | None \<Rightarrow> result1)))"

definition Compare ::
  "'f float_fmt \<Rightarrow> 'f compare_orders \<Rightarrow> 'f Snapshot \<Rightarrow> 'f Snapshot \<Rightarrow> 'f DiffResult" where
  "Compare F ord snap1 snap2 =
     fold (\<lambda>(tableName, _) result. Compare_table F ord snap1 snap2 tableName result)
       (range_pairs (tableNames_order ord) (tableNames_of ord snap1 snap2))
       \<lparr>DiffResult_SchemaDiffs = Map.empty, DiffResult_DataDiffs = Map.empty\<rparr>"

text \<open>The orders of the three range loops of \<open>Compare\<close> itself describe a run.\<close>

definition compare_orders_ok :: "'f compare_orders \<Rightarrow> 'f Snapshot \<Rightarrow> 'f Snapshot \<Rightarrow> bool" where
  "compare_orders_ok ord snap1 snap2 =
     (is_range_order (snap1_order ord) (Snapshot_Tables snap1) \<and>
      is_range_order (snap2_order ord) (Snapshot_Tables snap2) \<and>
      is_range_order (tableNames_order ord) (tableNames_of ord snap1 snap2))"

section \<open>The DDL generator (package generator)\<close>

record DDLGenerator =
  DDLGenerator_dbType :: string

definition NewDDLGenerator :: "string \<Rightarrow> DDLGenerator" where
  "NewDDLGenerator dbType = \<lparr>DDLGenerator_dbType = dbType\<rparr>"

definition DDL_quoteIdentifier :: "DDLGenerator \<Rightarrow> string \<Rightarrow> string" where
  "DDL_quoteIdentifier g name =
     (if DDLGenerator_dbType g = ''postgres'' \<or> DDLGenerator_dbType g = ''PostgreSQL''
      then [CHR 0x22] @ name @ [CHR 0x22]
      else [CHR 0x60] @ name @ [CHR 0x60])"

definition DDL_quoteIdentifiers :: "DDLGenerator \<Rightarrow> string list \<Rightarrow> string list" where
  "DDL_quoteIdentifiers g names = map (DDL_quoteIdentifier g) names"

definition columnDefinition :: "DDLGenerator \<Rightarrow> Column \<Rightarrow> string" where
  "columnDefinition g col =
     (let def0 = DDL_quoteIdentifier g (Column_Name col) @ '' '' @ Column_Type col;
          def1 = (if \<not> Column_Nullable col then def0 @ '' NOT NULL'' else def0);
          def2 = (case Column_DefaultValue col of
                    Some d \<Rightarrow> def1 @ '' DEFAULT '' @ d
                  | None \<Rightarrow> def1)
      in if Column_AutoIncrement col then
           (if DDLGenerator_dbType g = ''postgres'' \<or> DDLGenerator_dbType g = ''PostgreSQL''
            then def2
            else def2 @ '' AUTO_INCREMENT'')
         else def2)"

text \<open>The foreign key clause shared by \<open>generateCreateTable\<close> and \<open>generateAddForeignKey\<close>.\<close>

definition on_actions :: "ForeignKey \<Rightarrow> string \<Rightarrow> string" where
  "on_actions fk fkDef =
     (let d1 = (if ForeignKey_OnDelete fk \<noteq> [] then fkDef @ '' ON DELETE '' @ ForeignKey_OnDelete fk
                else fkDef)
      in if ForeignKey_OnUpdate fk \<noteq> [] then d1 @ '' ON UPDATE '' @ ForeignKey_OnUpdate fk
         else d1)"

fun primary_key_part :: "DDLGenerator \<Rightarrow> Index list \<Rightarrow> string list" where
  "primary_key_part g [] = []"
| "primary_key_part g (idx # rest) =
     (if Index_Primary idx then
        [''PRIMARY KEY ('' @ Join (DDL_quoteIdentifiers g (Index_Columns idx)) '', '' @ '')'']
      else primary_key_part g rest)"

definition generateCreateTable :: "DDLGenerator \<Rightarrow> TableSchema \<Rightarrow> string" where
  "generateCreateTable g tableSchema =
     (let parts =
            map (columnDefinition g) (TableSchema_Columns tableSchema)
            @ primary_key_part g (TableSchema_Indexes tableSchema)
            @ map (\<lambda>fk. on_actions fk
                  (''CONSTRAINT '' @ DDL_quoteIdentifier g (ForeignKey_Name fk)
                   @ '' FOREIGN KEY ('' @ DDL_quoteIdentifier g (ForeignKey_Column fk)
                   @ '') REFERENCES '' @ DDL_quoteIdentifier g (ForeignKey_ReferencedTable fk)
                   @ ''('' @ DDL_quoteIdentifier g (ForeignKey_ReferencedColumn fk) @ '')''))
                (TableSchema_ForeignKeys tableSchema);
          tableName = DDL_quoteIdentifier g (TableSchema_Name tableSchema)
      in ''CREATE TABLE '' @ tableName @ '' ('' @ [CHR 0x0A] @ ''  ''
         @ Join parts ('','' @ [CHR 0x0A] @ ''  '') @ [CHR 0x0A] @ '');'')"

definition generateDropTable :: "DDLGenerator \<Rightarrow> string \<Rightarrow> string" where
  "generateDropTable g tableName = ''DROP TABLE '' @ DDL_quoteIdentifier g tableName @ '';''"

definition generateAddColumn :: "DDLGenerator \<Rightarrow> string \<Rightarrow> Column \<Rightarrow> string" where
  "generateAddColumn g tableName col =
     ''ALTER TABLE '' @ DDL_quoteIdentifier g tableName @ '' ADD COLUMN ''
     @ columnDefinition g col @ '';''"

definition generateDropColumn :: "DDLGenerator \<Rightarrow> string \<Rightarrow> string \<Rightarrow> string" where
  "generateDropColumn g tableName columnName =
     ''ALTER TABLE '' @ DDL_quoteIdentifier g tableName @ '' DROP COLUMN ''
     @ DDL_quoteIdentifier g columnName @ '';''"

definition generateModifyColumn :: "DDLGenerator \<Rightarrow> string \<Rightarrow> Column \<Rightarrow> string" where
  "generateModifyColumn g tableName col =
     (if DDLGenerator_dbType g = ''postgres'' \<or> DDLGenerator_dbType g = ''PostgreSQL'' then
        ''ALTER TABLE '' @ DDL_quoteIdentifier g tableName @ '' ALTER COLUMN ''
        @ DDL_quoteIdentifier g (Column_Name col) @ '' TYPE '' @ Column_Type col @ '';''
      else
        ''ALTER TABLE '' @ DDL_quoteIdentifier g tableName @ '' MODIFY COLUMN ''
        @ columnDefinition g col @ '';'')"

definition generateCreateIndex :: "DDLGenerator \<Rightarrow> string \<Rightarrow> Index \<Rightarrow> string" where
  "generateCreateIndex g tableName idx =
     (let indexType = (if Index_Unique idx then ''UNIQUE '' else []);
          columns = Join (DDL_quoteIdentifiers g (Index_Columns idx)) '', ''
      in ''CREATE '' @ indexType @ ''INDEX '' @ DDL_quoteIdentifier g (Index_Name idx)
         @ '' ON '' @ DDL_quoteIdentifier g tableName @ '' ('' @ columns @ '');'')"

definition generateDropIndex :: "DDLGenerator \<Rightarrow> string \<Rightarrow> string \<Rightarrow> string" where
  "generateDropIndex g tableName indexName =
     (if DDLGenerator_dbType g = ''postgres'' \<or> DDLGenerator_dbType g = ''PostgreSQL'' then
        ''DROP INDEX '' @ DDL_quoteIdentifier g indexName @ '';''
      else
        ''DROP INDEX '' @ DDL_quoteIdentifier g indexName @ '' ON ''
        @ DDL_quoteIdentifier g tableName @ '';'')"

definition generateAddForeignKey :: "DDLGenerator \<Rightarrow> string \<Rightarrow> ForeignKey \<Rightarrow> string" where
  "generateAddForeignKey g tableName fk =
     on_actions fk
       (''ALTER TABLE '' @ DDL_quoteIdentifier g tableName @ '' ADD CONSTRAINT ''
        @ DDL_quoteIdentifier g (ForeignKey_Name fk)
        @ '' FOREIGN KEY ('' @ DDL_quoteIdentifier g (ForeignKey_Column fk)
        @ '') REFERENCES '' @ DDL_quoteIdentifier g (ForeignKey_ReferencedTable fk)
        @ ''('' @ DDL_quoteIdentifier g (ForeignKey_ReferencedColumn fk) @ '')'')
     @ '';''"

definition generateDropForeignKey :: "DDLGenerator \<Rightarrow> string \<Rightarrow> string \<Rightarrow> string" where
  "generateDropForeignKey g tableName fkName =
     (if DDLGenerator_dbType g = ''postgres'' \<or> DDLGenerator_dbType g = ''PostgreSQL'' then
        ''ALTER TABLE '' @ DDL_quoteIdentifier g tableName @ '' DROP CONSTRAINT ''
        @ DDL_quoteIdentifier g fkName @ '';''
      else
        ''ALTER TABLE '' @ DDL_quoteIdentifier g tableName @ '' DROP FOREIGN KEY ''
        @ DDL_quoteIdentifier g fkName @ '';'')"

text \<open>
  The five loops of the MODIFY case of \<open>Generate\<close>, each appending to \<open>statements\<close>.
  The old and new entries of a change are pointers: reading a field of one that is nil
  is a run-time panic, the result \<open>None\<close>.
\<close>

fun drop_foreign_keys_loop ::
  "DDLGenerator \<Rightarrow> string \<Rightarrow> ForeignKeyChange list \<Rightarrow> string list \<Rightarrow> string list option" where
  "drop_foreign_keys_loop g tableName [] statements = Some statements"
| "drop_foreign_keys_loop g tableName (fkChange # rest) statements =
     (if ForeignKeyChange_Action fkChange = ActionDrop
         \<or> ForeignKeyChange_Action fkChange = ActionModify then
        (case ForeignKeyChange_OldForeignKey fkChange of
           None \<Rightarrow> None
         | Some old \<Rightarrow>
             drop_foreign_keys_loop g tableName rest
               (statements @ [generateDropForeignKey g tableName (ForeignKey_Name old)]))
      else drop_foreign_keys_loop g tableName rest statements)"

fun drop_indexes_loop ::
  "DDLGenerator \<Rightarrow> string \<Rightarrow> IndexChange list \<Rightarrow> string list \<Rightarrow> string list option" where
  "drop_indexes_loop g tableName [] statements = Some statements"
| "drop_indexes_loop g tableName (idxChange # rest) statements =
     (if IndexChange_Action idxChange = ActionDrop
         \<or> IndexChange_Action idxChange = ActionModify then
        (case IndexChange_OldIndex idxChange of
           None \<Rightarrow> None
         | Some old \<Rightarrow>
             if \<not> Index_Primary old then
               drop_indexes_loop g tableName rest
                 (statements @ [generateDropIndex g tableName (Index_Name old)])
             else drop_indexes_loop g tableName rest statements)
      else drop_indexes_loop g tableName rest statements)"

fun column_changes_loop ::
  "DDLGenerator \<Rightarrow> string \<Rightarrow> ColumnChange list \<Rightarrow> string list \<Rightarrow> string list option" where
  "column_changes_loop g tableName [] statements = Some statements"
| "column_changes_loop g tableName (colChange # rest) statements =
     (case ColumnChange_Action colChange of
        ActionAdd \<Rightarrow>
          (case ColumnChange_NewColumn colChange of
             None \<Rightarrow> None
           | Some new \<Rightarrow>
               column_changes_loop g tableName rest
                 (statements @ [generateAddColumn g tableName new]))
      | ActionDrop \<Rightarrow>
          column_changes_loop g tableName rest
            (statements @ [generateDropColumn g tableName (ColumnChange_ColumnName colChange)])
      | ActionModify \<Rightarrow>
          (case ColumnChange_NewColumn colChange of
             None \<Rightarrow> None
           | Some new \<Rightarrow>
               column_changes_loop g tableName rest
                 (statements @ [generateModifyColumn g tableName new])))"

fun add_indexes_loop ::
  "DDLGenerator \<Rightarrow> string \<Rightarrow> IndexChange list \<Rightarrow> string list \<Rightarrow> string list option" where
  "add_indexes_loop g tableName [] statements = Some statements"
| "add_indexes_loop g tableName (idxChange # rest) statements =
     (if IndexChange_Action idxChange = ActionAdd
         \<or> IndexChange_Action idxChange = ActionModify then
        (case IndexChange_NewIndex idxChange of
           None \<Rightarrow> None
         | Some new \<Rightarrow>
             if \<not> Index_Primary new then
               add_indexes_loop g tableName rest
                 (statements @ [generateCreateIndex g tableName new])
             else add_indexes_loop g tableName rest statements)
      else add_indexes_loop g tableName rest statements)"

fun add_foreign_keys_loop ::
  "DDLGenerator \<Rightarrow> string \<Rightarrow> ForeignKeyChange list \<Rightarrow> string list \<Rightarrow> string list option" where
  "add_foreign_keys_loop g tableName [] statements = Some statements"
| "add_foreign_keys_loop g tableName (fkChange # rest) statements =
     (if ForeignKeyChange_Action fkChange = ActionAdd
         \<or> ForeignKeyChange_Action fkChange = ActionModify then
        (case ForeignKeyChange_NewForeignKey fkChange of
           None \<Rightarrow> None
         | Some new \<Rightarrow>
             add_foreign_keys_loop g tableName rest
               (statements @ [generateAddForeignKey g tableName new]))
      else add_foreign_keys_loop g tableName rest statements)"

text \<open>
  The statements of \<open>Generate\<close> before they are joined, and \<open>Generate\<close> itself
  (\<^verbatim>\<open>func (g *DDLGenerator) Generate\<close>).
\<close>

definition DDL_statements :: "DDLGenerator \<Rightarrow> SchemaDiff \<Rightarrow> string list option" where
  "DDL_statements g schemaDiff =
     (case SchemaDiff_Action schemaDiff of
        ActionAdd \<Rightarrow>
          (case SchemaDiff_NewSchema schemaDiff of
             None \<Rightarrow> None
           | Some newSchema \<Rightarrow> Some ([] @ [generateCreateTable g newSchema]))
      | ActionDrop \<Rightarrow> Some ([] @ [generateDropTable g (SchemaDiff_TableName schemaDiff)])
      | ActionModify \<Rightarrow>
          Option.bind
            (drop_foreign_keys_loop g (SchemaDiff_TableName schemaDiff)
               (SchemaDiff_ForeignKeyChanges schemaDiff) [])
            (\<lambda>s1. Option.bind
               (drop_indexes_loop g (SchemaDiff_TableName schemaDiff)
                  (SchemaDiff_IndexChanges schemaDiff) s1)
               (\<lambda>s2. Option.bind
                  (column_changes_loop g (SchemaDiff_TableName schemaDiff)
                     (SchemaDiff_ColumnChanges schemaDiff) s2)
                  (\<lambda>s3. Option.bind
                     (add_indexes_loop g (SchemaDiff_TableName schemaDiff)
                        (SchemaDiff_IndexChanges schemaDiff) s3)
                     (\<lambda>s4. add_foreign_keys_loop g (SchemaDiff_TableName schemaDiff)
                        (SchemaDiff_ForeignKeyChanges schemaDiff) s4)))))"

definition DDL_Generate :: "DDLGenerator \<Rightarrow> SchemaDiff \<Rightarrow> string option" where
  "DDL_Generate g schemaDiff =
     map_option (\<lambda>statements. Join statements [CHR 0x0A]) (DDL_statements g schemaDiff)"

section \<open>The DML generator (package generator)\<close>

record DMLGenerator =
  DMLGenerator_dbType :: string

definition NewDMLGenerator :: "string \<Rightarrow> DMLGenerator" where
  "NewDMLGenerator dbType = \<lparr>DMLGenerator_dbType = dbType\<rparr>"

definition DML_quoteIdentifier :: "DMLGenerator \<Rightarrow> string \<Rightarrow> string" where
  "DML_quoteIdentifier g name =
     (if DMLGenerator_dbType g = ''postgres'' \<or> DMLGenerator_dbType g = ''PostgreSQL''
      then [CHR 0x22] @ name @ [CHR 0x22]
      else [CHR 0x60] @ name @ [CHR 0x60])"

text \<open>
  The type switch of \<open>formatValue\<close>; its default case is for dynamic types the model
  does not have.
\<close>

fun formatValue :: "'f float_fmt \<Rightarrow> 'f val \<Rightarrow> string" where
  "formatValue F VNil = ''NULL''"
| "formatValue F (VString v) = [CHR 0x27] @ escape_quotes v @ [CHR 0x27]"
| "formatValue F (VInt v) = fmt_d v"
| "formatValue F (VFloat v) = float_f F v"
| "formatValue F (VBool v) = (if v then ''TRUE'' else ''FALSE'')"

definition valuesEqual :: "'f float_fmt \<Rightarrow> 'f val \<Rightarrow> 'f val \<Rightarrow> bool" where
  "valuesEqual F a b =
     (if a = VNil \<and> b = VNil then True
      else if a = VNil \<or> b = VNil then False
      else fmt_v F a = fmt_v F b)"

text \<open>\<open>ks\<close> is the order of the range over \<open>row\<close>.\<close>

definition buildWhereClause ::
  "'f float_fmt \<Rightarrow> DMLGenerator \<Rightarrow> string list \<Rightarrow> 'f Row \<Rightarrow> string" where
  "buildWhereClause F g ks row =
     Join (fold (\<lambda>(col, val) conditions.
              if val = VNil then conditions @ [DML_quoteIdentifier g col @ '' IS NULL'']
              else conditions @ [DML_quoteIdentifier g col @ '' = '' @ formatValue F val])
            (range_pairs ks row) []) '' AND ''"

definition generateInsert ::
  "'f float_fmt \<Rightarrow> DMLGenerator \<Rightarrow> string list \<Rightarrow> string \<Rightarrow> 'f Row \<Rightarrow> string" where
  "generateInsert F g ks tableName row =
     (let (columns, values) =
            fold (\<lambda>(col, val) (columns, values).
                    (columns @ [DML_quoteIdentifier g col], values @ [formatValue F val]))
              (range_pairs ks row) ([], [])
      in ''INSERT INTO '' @ DML_quoteIdentifier g tableName @ '' ('' @ Join columns '', ''
         @ '') VALUES ('' @ Join values '', '' @ '');'')"

definition generateDelete ::
  "'f float_fmt \<Rightarrow> DMLGenerator \<Rightarrow> string list \<Rightarrow> string \<Rightarrow> 'f Row \<Rightarrow> string" where
  "generateDelete F g ks tableName row =
     (let whereClauses = buildWhereClause F g ks row
      in ''DELETE FROM '' @ DML_quoteIdentifier g tableName @ '' WHERE '' @ whereClauses @ '';'')"

text \<open>
  The loop of \<open>generateUpdate\<close> over the new row: the SET clauses, one for each column
  that the old row lacks or holds with a value that \<open>valuesEqual\<close> tells apart.
\<close>

definition setClauses_loop ::
  "'f float_fmt \<Rightarrow> DMLGenerator \<Rightarrow> 'f Row \<Rightarrow> (string \<times> 'f val) list \<Rightarrow> string list \<Rightarrow>
   string list" where
  "setClauses_loop F g oldRow kvs setClauses =
     fold (\<lambda>(col, newVal) setClauses.
        case oldRow col of
          None \<Rightarrow> setClauses @ [DML_quoteIdentifier g col @ '' = '' @ formatValue F newVal]
        | Some oldVal \<Rightarrow>
            if \<not> valuesEqual F oldVal newVal then
              setClauses @ [DML_quoteIdentifier g col @ '' = '' @ formatValue F newVal]
            else setClauses) kvs setClauses"

text \<open>
  \<open>ks_set\<close> is the order of the range over \<open>newRow\<close>, \<open>ks_where\<close> that of the range over
  \<open>oldRow\<close> in \<open>buildWhereClause\<close>.
\<close>

definition generateUpdate ::
  "'f float_fmt \<Rightarrow> DMLGenerator \<Rightarrow> string list \<Rightarrow> string list \<Rightarrow> string \<Rightarrow> 'f Row \<Rightarrow> 'f Row \<Rightarrow>
   string" where
  "generateUpdate F g ks_set ks_where tableName oldRow newRow =
     (let setClauses = setClauses_loop F g oldRow (range_pairs ks_set newRow) []
      in if length setClauses = 0 then []
         else
           (let whereClauses = buildWhereClause F g ks_where oldRow
            in ''UPDATE '' @ DML_quoteIdentifier g tableName @ '' SET ''
               @ Join setClauses '', '' @ '' WHERE '' @ whereClauses @ '';''))"

text \<open>
  The orders of one call of the DML \<open>Generate\<close>: for the i-th deleted row, the i-th
  added row and the i-th modification, the orders of the ranges over their rows.
\<close>

record dml_orders =
  delete_order :: "nat \<Rightarrow> string list"
  insert_order :: "nat \<Rightarrow> string list"
  update_set_order :: "nat \<Rightarrow> string list"
  update_where_order :: "nat \<Rightarrow> string list"

definition DML_Generate ::
  "'f float_fmt \<Rightarrow> DMLGenerator \<Rightarrow> dml_orders \<Rightarrow> 'f DataDiff \<Rightarrow> string" where
  "DML_Generate F g ord dataDiff =
     (let s1 = fold (\<lambda>(i, row) statements.
                  statements @ [generateDelete F g (delete_order ord i)
                                  (DataDiff_TableName dataDiff) row])
                (enumerate 0 (DataDiff_RowsDeleted dataDiff)) [];
          s2 = fold (\<lambda>(i, row) statements.
                  statements @ [generateInsert F g (insert_order ord i)
                                  (DataDiff_TableName dataDiff) row])
                (enumerate 0 (DataDiff_RowsAdded dataDiff)) s1;
          s3 = fold (\<lambda>(i, m) statements.
                  statements @ [generateUpdate F g (update_set_order ord i)
                                  (update_where_order ord i) (DataDiff_TableName dataDiff)
                                  (RowModification_OldRow m) (RowModification_NewRow m)])
                (enumerate 0 (DataDiff_RowsModified dataDiff)) s2
      in Join s3 [CHR 0x0A])"

section \<open>The migration script (package generator)\<close>

text \<open>
  The orders of one call of \<open>GenerateSQL\<close>: of the ranges over the two maps of the
  result, and for each table those of the DML \<open>Generate\<close> called for it.
\<close>

record sql_orders =
  schemaDiffs_order :: "string list"
  dataDiffs_order :: "string list"
  table_dml_orders :: "string \<Rightarrow> dml_orders"

fun ddl_loop ::
  "DDLGenerator \<Rightarrow> (string \<times> SchemaDiff) list \<Rightarrow> string list \<Rightarrow> string list option" where
  "ddl_loop ddlGen [] sqlStatements = Some sqlStatements"
| "ddl_loop ddlGen ((name, schemaDiff) # rest) sqlStatements =
     (case DDL_Generate ddlGen schemaDiff of
        None \<Rightarrow> None
      | Some sql \<Rightarrow>
          if sql \<noteq> [] then ddl_loop ddlGen rest (sqlStatements @ [sql])
          else ddl_loop ddlGen rest sqlStatements)"

definition dml_loop ::
  "'f float_fmt \<Rightarrow> DMLGenerator \<Rightarrow> sql_orders \<Rightarrow> (string \<times> 'f DataDiff) list \<Rightarrow>
   string list \<Rightarrow> string list" where
  "dml_loop F dmlGen ord kvs sqlStatements =
     fold (\<lambda>(name, dataDiff) sqlStatements.
        let sql = DML_Generate F dmlGen (table_dml_orders ord name) dataDiff
        in if sql \<noteq> [] then sqlStatements @ [sql] else sqlStatements) kvs sqlStatements"

definition GenerateSQL ::
  "'f float_fmt \<Rightarrow> sql_orders \<Rightarrow> 'f DiffResult \<Rightarrow> string \<Rightarrow> string option" where
  "GenerateSQL F ord result dbType =
     (let ddlGen = NewDDLGenerator dbType
      in case ddl_loop ddlGen
                (range_pairs (schemaDiffs_order ord) (DiffResult_SchemaDiffs result)) [] of
           None \<Rightarrow> None
         | Some s1 \<Rightarrow>
             (let dmlGen = NewDMLGenerator dbType;
                  s2 = dml_loop F dmlGen ord
                         (range_pairs (dataDiffs_order ord) (DiffResult_DataDiffs result)) s1
              in Some (Join s2 [CHR 0x0A, CHR 0x0A])))"

definition sql_orders_ok :: "sql_orders \<Rightarrow> 'f DiffResult \<Rightarrow> bool" where
  "sql_orders_ok ord result =
     (is_range_order (schemaDiffs_order ord) (DiffResult_SchemaDiffs result) \<and>
      is_range_order (dataDiffs_order ord) (DiffResult_DataDiffs result))"

section \<open>Notions used in the statements\<close>

text \<open>
  What \<open>Compare\<close> leaves in its two maps for one table name, read off the loop body.
\<close>

definition schema_entry ::
  "'f compare_orders \<Rightarrow> 'f Snapshot \<Rightarrow> 'f Snapshot \<Rightarrow> string \<Rightarrow> SchemaDiff option" where
  "schema_entry ord snap1 snap2 t =
     (case Snapshot_Tables snap1 t of
        None \<Rightarrow>
          (case Snapshot_Tables snap2 t of
             None \<Rightarrow> None
           | Some table2 \<Rightarrow>
               Some \<lparr>SchemaDiff_TableName = t, SchemaDiff_Action = ActionAdd,
                     SchemaDiff_OldSchema = None, SchemaDiff_NewSchema = Some (Table_Schema table2),
                     SchemaDiff_ColumnChanges = [], SchemaDiff_IndexChanges = [],
                     SchemaDiff_ForeignKeyChanges = []\<rparr>)
      | Some table1 \<Rightarrow>
          (case Snapshot_Tables snap2 t of
             None \<Rightarrow>
               Some \<lparr>SchemaDiff_TableName = t, SchemaDiff_Action = ActionDrop,
                     SchemaDiff_OldSchema = Some (Table_Schema table1), SchemaDiff_NewSchema = None,
                     SchemaDiff_ColumnChanges = [], SchemaDiff_IndexChanges = [],
                     SchemaDiff_ForeignKeyChanges = []\<rparr>
           | Some table2 \<Rightarrow>
               compareSchemas (table_schema_orders ord t)
                 (Table_Schema table1) (Table_Schema table2)))"

definition data_entry ::
  "'f float_fmt \<Rightarrow> 'f compare_orders \<Rightarrow> 'f Snapshot \<Rightarrow> 'f Snapshot \<Rightarrow> string \<Rightarrow>
   'f DataDiff option" where
  "data_entry F ord snap1 snap2 t =
     (case Snapshot_Tables snap1 t of
        None \<Rightarrow> None
      | Some table1 \<Rightarrow>
          (case Snapshot_Tables snap2 t of
             None \<Rightarrow> None
           | Some table2 \<Rightarrow>
               compareData F (table_data_orders ord t) t
                 (Table_Data table1) (Table_Data table2) (Table_Schema table2)))"

text \<open>
  Two columns that agree in every field but the ordinal position; two indexes that
  agree in every field but the index kind.
\<close>

definition same_but_Position :: "Column \<Rightarrow> Column \<Rightarrow> bool" where
  "same_but_Position a b =
     (Column_Name a = Column_Name b \<and> Column_Type a = Column_Type b \<and>
      Column_Nullable a = Column_Nullable b \<and> Column_DefaultValue a = Column_DefaultValue b \<and>
      Column_AutoIncrement a = Column_AutoIncrement b)"

definition same_but_Type :: "Index \<Rightarrow> Index \<Rightarrow> bool" where
  "same_but_Type a b =
     (Index_Name a = Index_Name b \<and> Index_Columns a = Index_Columns b \<and>
      Index_Unique a = Index_Unique b \<and> Index_Primary a = Index_Primary b)"

text \<open>The last row of a sequence that has a given key, if any.\<close>

definition last_of_key :: "'f float_fmt \<Rightarrow> string list \<Rightarrow> 'f Row list \<Rightarrow> string \<Rightarrow> 'f Row option" where
  "last_of_key F pkColumns rows k = find (\<lambda>row. rowKey F row pkColumns = k) (rev rows)"

text \<open>
  The three lists that \<open>compareData\<close> builds when there is a primary key, written
  without the loops.
\<close>

definition rows_added ::
  "'f float_fmt \<Rightarrow> 'f data_orders \<Rightarrow> string list \<Rightarrow> 'f Row list \<Rightarrow> 'f Row list \<Rightarrow> 'f Row list" where
  "rows_added F ord pk oldData newData =
     map snd (filter (\<lambda>kv. rows_by_key F pk oldData (fst kv) = None)
       (range_pairs (newRows_order ord) (rows_by_key F pk newData)))"

definition rows_deleted ::
  "'f float_fmt \<Rightarrow> 'f data_orders \<Rightarrow> string list \<Rightarrow> 'f Row list \<Rightarrow> 'f Row list \<Rightarrow> 'f Row list" where
  "rows_deleted F ord pk oldData newData =
     map snd (filter (\<lambda>kv. rows_by_key F pk newData (fst kv) = None)
       (range_pairs (oldRows_order ord) (rows_by_key F pk oldData)))"

definition row_modification ::
  "'f float_fmt \<Rightarrow> 'f data_orders \<Rightarrow> (string \<rightharpoonup> 'f Row) \<Rightarrow> string \<times> 'f Row \<Rightarrow>
   'f RowModification list" where
  "row_modification F ord oldRows kv =
     (case oldRows (fst kv) of
        None \<Rightarrow> []
      | Some oldRow \<Rightarrow>
          if \<not> rowsEqual F (rowsEqual_order ord oldRow) oldRow (snd kv)
          then [\<lparr>RowModification_OldRow = oldRow, RowModification_NewRow = snd kv\<rparr>]
          else [])"

definition rows_modified ::
  "'f float_fmt \<Rightarrow> 'f data_orders \<Rightarrow> string list \<Rightarrow> 'f Row list \<Rightarrow> 'f Row list \<Rightarrow>
   'f RowModification list" where
  "rows_modified F ord pk oldData newData =
     concat (map (row_modification F ord (rows_by_key F pk oldData))
       (range_pairs (newRows_order ord) (rows_by_key F pk newData)))"

text \<open>
  The same three collections as sets, written without the key maps and the orders: a
  row is added when it is the last row of its key in the new data and the old data
  has no row of that key, deleted the other way round, and a modification pairs the
  last rows of one key in the old and in the new data when \<open>rowsEqual\<close> tells them
  apart.
\<close>

definition last_rows_added ::
  "'f float_fmt \<Rightarrow> string list \<Rightarrow> 'f Row list \<Rightarrow> 'f Row list \<Rightarrow> 'f Row set" where
  "last_rows_added F pk oldData newData =
     {a. \<exists>k. last_of_key F pk newData k = Some a \<and> last_of_key F pk oldData k = None}"

definition last_rows_deleted ::
  "'f float_fmt \<Rightarrow> string list \<Rightarrow> 'f Row list \<Rightarrow> 'f Row list \<Rightarrow> 'f Row set" where
  "last_rows_deleted F pk oldData newData =
     {a. \<exists>k. last_of_key F pk oldData k = Some a \<and> last_of_key F pk newData k = None}"

definition last_rows_modified ::
  "'f float_fmt \<Rightarrow> 'f data_orders \<Rightarrow> string list \<Rightarrow> 'f Row list \<Rightarrow> 'f Row list \<Rightarrow>
   'f RowModification set" where
  "last_rows_modified F ord pk oldData newData =
     {m. \<exists>k. last_of_key F pk oldData k = Some (RowModification_OldRow m) \<and>
             last_of_key F pk newData k = Some (RowModification_NewRow m) \<and>
             \<not> rowsEqual F (rowsEqual_order ord (RowModification_OldRow m))
                 (RowModification_OldRow m) (RowModification_NewRow m)}"



text \<open>
  The five groups of statements for a MODIFY diff, as the specification lists them:
  the foreign keys dropped or modified are dropped (old definition); the indexes
  dropped or modified, the primary one excepted, are dropped; the columns are changed;
  the indexes added or modified, the primary one excepted, are created (new
  definition); the foreign keys added or modified are added (new definition).
\<close>

definition drop_foreign_key_statements ::
  "DDLGenerator \<Rightarrow> string \<Rightarrow> ForeignKeyChange list \<Rightarrow> string list" where
  "drop_foreign_key_statements g t changes =
     concat (map (\<lambda>c.
       if ForeignKeyChange_Action c = ActionDrop \<or> ForeignKeyChange_Action c = ActionModify then
         (case ForeignKeyChange_OldForeignKey c of
            Some old \<Rightarrow> [generateDropForeignKey g t (ForeignKey_Name old)]
          | None \<Rightarrow> [])
       else []) changes)"

definition drop_index_statements ::
  "DDLGenerator \<Rightarrow> string \<Rightarrow> IndexChange list \<Rightarrow> string list" where
  "drop_index_statements g t changes =
     concat (map (\<lambda>c.
       if IndexChange_Action c = ActionDrop \<or> IndexChange_Action c = ActionModify then
         (case IndexChange_OldIndex c of
            Some old \<Rightarrow> if Index_Primary old then [] else [generateDropIndex g t (Index_Name old)]
          | None \<Rightarrow> [])
       else []) changes)"

definition column_statements ::
  "DDLGenerator \<Rightarrow> string \<Rightarrow> ColumnChange list \<Rightarrow> string list" where
  "column_statements g t changes =
     concat (map (\<lambda>c.
       case ColumnChange_Action c of
         ActionAdd \<Rightarrow>
           (case ColumnChange_NewColumn c of
              Some new \<Rightarrow> [generateAddColumn g t new]
            | None \<Rightarrow> [])
       | ActionDrop \<Rightarrow> [generateDropColumn g t (ColumnChange_ColumnName c)]
       | ActionModify \<Rightarrow>
           (case ColumnChange_NewColumn c of
              Some new \<Rightarrow> [generateModifyColumn g t new]
            | None \<Rightarrow> [])) changes)"

definition create_index_statements ::
  "DDLGenerator \<Rightarrow> string \<Rightarrow> IndexChange list \<Rightarrow> string list" where
  "create_index_statements g t changes =
     concat (map (\<lambda>c.
       if IndexChange_Action c = ActionAdd \<or> IndexChange_Action c = ActionModify then
         (case IndexChange_NewIndex c of
            Some new \<Rightarrow> if Index_Primary new then [] else [generateCreateIndex g t new]
          | None \<Rightarrow> [])
       else []) changes)"

definition add_foreign_key_statements ::
  "DDLGenerator \<Rightarrow> string \<Rightarrow> ForeignKeyChange list \<Rightarrow> string list" where
  "add_foreign_key_statements g t changes =
     concat (map (\<lambda>c.
       if ForeignKeyChange_Action c = ActionAdd \<or> ForeignKeyChange_Action c = ActionModify then
         (case ForeignKeyChange_NewForeignKey c of
            Some new \<Rightarrow> [generateAddForeignKey g t new]
          | None \<Rightarrow> [])
       else []) changes)"

text \<open>
  A change is well formed when it holds the entries its action stands for: the old
  one unless it is an ADD, the new one unless it is a DROP.
\<close>

definition column_change_ok :: "ColumnChange \<Rightarrow> bool" where
  "column_change_ok c =
     ((ColumnChange_Action c = ActionAdd \<or> ColumnChange_OldColumn c \<noteq> None) \<and>
      (ColumnChange_Action c = ActionDrop \<or> ColumnChange_NewColumn c \<noteq> None))"

definition index_change_ok :: "IndexChange \<Rightarrow> bool" where
  "index_change_ok c =
     ((IndexChange_Action c = ActionAdd \<or> IndexChange_OldIndex c \<noteq> None) \<and>
      (IndexChange_Action c = ActionDrop \<or> IndexChange_NewIndex c \<noteq> None))"

definition foreign_key_change_ok :: "ForeignKeyChange \<Rightarrow> bool" where
  "foreign_key_change_ok c =
     ((ForeignKeyChange_Action c = ActionAdd \<or> ForeignKeyChange_OldForeignKey c \<noteq> None) \<and>
      (ForeignKeyChange_Action c = ActionDrop \<or> ForeignKeyChange_NewForeignKey c \<noteq> None))"

definition changes_well_formed :: "SchemaDiff \<Rightarrow> bool" where
  "changes_well_formed sd =
     (list_all column_change_ok (SchemaDiff_ColumnChanges sd) \<and>
      list_all index_change_ok (SchemaDiff_IndexChanges sd) \<and>
      list_all foreign_key_change_ok (SchemaDiff_ForeignKeyChanges sd))"

text \<open>
  Two diffs of one table that agree up to the order of the entries of their lists.
\<close>

definition same_schema_diff :: "SchemaDiff \<Rightarrow> SchemaDiff \<Rightarrow> bool" where
  "same_schema_diff d d' =
     (SchemaDiff_TableName d = SchemaDiff_TableName d' \<and>
      SchemaDiff_Action d = SchemaDiff_Action d' \<and>
      SchemaDiff_OldSchema d = SchemaDiff_OldSchema d' \<and>
      SchemaDiff_NewSchema d = SchemaDiff_NewSchema d' \<and>
      mset (SchemaDiff_ColumnChanges d) = mset (SchemaDiff_ColumnChanges d') \<and>
      mset (SchemaDiff_IndexChanges d) = mset (SchemaDiff_IndexChanges d') \<and>
      mset (SchemaDiff_ForeignKeyChanges d) = mset (SchemaDiff_ForeignKeyChanges d'))"

definition same_data_diff :: "'f DataDiff \<Rightarrow> 'f DataDiff \<Rightarrow> bool" where
  "same_data_diff d d' =
     (DataDiff_TableName d = DataDiff_TableName d' \<and>
      mset (DataDiff_RowsAdded d) = mset (DataDiff_RowsAdded d') \<and>
      mset (DataDiff_RowsDeleted d) = mset (DataDiff_RowsDeleted d') \<and>
      mset (DataDiff_RowsModified d) = mset (DataDiff_RowsModified d'))"

text \<open>
  All orders of a call of \<open>Compare\<close> describe a run: those of its own loops, and for
  every table of both snapshots those of the two comparisons made for it.
\<close>

definition all_orders_ok ::
  "'f float_fmt \<Rightarrow> 'f compare_orders \<Rightarrow> 'f Snapshot \<Rightarrow> 'f Snapshot \<Rightarrow> bool" where
  "all_orders_ok F ord snap1 snap2 =
     (compare_orders_ok ord snap1 snap2 \<and>
      (\<forall>t table1 table2.
         Snapshot_Tables snap1 t = Some table1 \<longrightarrow> Snapshot_Tables snap2 t = Some table2 \<longrightarrow>
           schema_orders_ok (table_schema_orders ord t) (Table_Schema table1) (Table_Schema table2) \<and>
           data_orders_ok F (table_data_orders ord t) (Table_Data table1) (Table_Data table2)
             (Table_Schema table2)))"

text \<open>The three change lists that \<open>compareSchemas\<close> builds.\<close>

definition column_changes :: "schema_orders \<Rightarrow> TableSchema \<Rightarrow> TableSchema \<Rightarrow> ColumnChange list" where
  "column_changes ord old new =
     dropped mkColumnChange (by_name Column_Name (TableSchema_Columns new))
       (range_pairs (oldColumns_order ord) (by_name Column_Name (TableSchema_Columns old)))
       (added_modified columnsEqual mkColumnChange
          (by_name Column_Name (TableSchema_Columns old))
          (range_pairs (newColumns_order ord)
             (by_name Column_Name (TableSchema_Columns new))) [])"

definition index_changes :: "schema_orders \<Rightarrow> TableSchema \<Rightarrow> TableSchema \<Rightarrow> IndexChange list" where
  "index_changes ord old new =
     dropped mkIndexChange (by_name Index_Name (TableSchema_Indexes new))
       (range_pairs (oldIndexes_order ord) (by_name Index_Name (TableSchema_Indexes old)))
       (added_modified indexesEqual mkIndexChange
          (by_name Index_Name (TableSchema_Indexes old))
          (range_pairs (newIndexes_order ord)
             (by_name Index_Name (TableSchema_Indexes new))) [])"

definition foreign_key_changes ::
  "schema_orders \<Rightarrow> TableSchema \<Rightarrow> TableSchema \<Rightarrow> ForeignKeyChange list" where
  "foreign_key_changes ord old new =
     dropped mkForeignKeyChange (by_name ForeignKey_Name (TableSchema_ForeignKeys new))
       (range_pairs (oldFKs_order ord) (by_name ForeignKey_Name (TableSchema_ForeignKeys old)))
       (added_modified foreignKeysEqual mkForeignKeyChange
          (by_name ForeignKey_Name (TableSchema_ForeignKeys old))
          (range_pairs (newFKs_order ord)
             (by_name ForeignKey_Name (TableSchema_ForeignKeys new))) [])"

section \<open>Example data\<close>

text \<open>Inputs without floats need no float printer.\<close>

definition no_floats :: "unit float_fmt" where
  "no_floats = \<lparr>float_json = (\<lambda>_. None), float_v = (\<lambda>_. []), float_f = (\<lambda>_. [])\<rparr>"

definition no_schema_orders :: schema_orders where
  "no_schema_orders =
     \<lparr>newColumns_order = [], oldColumns_order = [], newIndexes_order = [],
      oldIndexes_order = [], newFKs_order = [], oldFKs_order = []\<rparr>"

definition no_data_orders :: "unit data_orders" where
  "no_data_orders = \<lparr>newRows_order = [], oldRows_order = [], rowsEqual_order = (\<lambda>_. [])\<rparr>"

text \<open>A table without columns, indexes and foreign keys: it has no primary key.\<close>

definition bare_schema :: "string \<Rightarrow> TableSchema" where
  "bare_schema n =
     \<lparr>TableSchema_Name = n, TableSchema_Columns = [], TableSchema_Indexes = [],
      TableSchema_ForeignKeys = []\<rparr>"

definition bare_table :: "string \<Rightarrow> unit Row list \<Rightarrow> unit Table" where
  "bare_table n rows = \<lparr>Table_Schema = bare_schema n, Table_Data = rows\<rparr>"

definition snap_logs :: "unit Snapshot" where
  "snap_logs =
     \<lparr>Snapshot_Metadata = Map.empty,
      Snapshot_Tables = [''logs'' \<mapsto> bare_table ''logs'' [[''msg'' \<mapsto> VString ''x'']]]\<rparr>"

definition orders_logs :: "unit compare_orders" where
  "orders_logs =
     \<lparr>snap1_order = [''logs''], snap2_order = [''logs''], tableNames_order = [''logs''],
      table_schema_orders = (\<lambda>_. no_schema_orders), table_data_orders = (\<lambda>_. no_data_orders)\<rparr>"

definition snap_users :: "unit Snapshot" where
  "snap_users =
     \<lparr>Snapshot_Metadata = Map.empty,
      Snapshot_Tables = [''users'' \<mapsto> bare_table ''users'' []]\<rparr>"

definition snap_tags :: "unit Snapshot" where
  "snap_tags =
     \<lparr>Snapshot_Metadata = Map.empty,
      Snapshot_Tables = [''tags'' \<mapsto> bare_table ''tags'' []]\<rparr>"

definition orders_users_tags :: "unit compare_orders" where
  "orders_users_tags =
     \<lparr>snap1_order = [''users''], snap2_order = [''tags''],
      tableNames_order = [''tags'', ''users''],
      table_schema_orders = (\<lambda>_. no_schema_orders), table_data_orders = (\<lambda>_. no_data_orders)\<rparr>"

text \<open>
  A table \<open>users\<close> keyed by \<open>id\<close> in one snapshot and without an index in the other.
\<close>

definition id_index :: Index where
  "id_index = \<lparr>Index_Name = ''PRIMARY'', Index_Columns = [''id''], Index_Unique = True,
                Index_Primary = True, Index_Type = ''BTREE''\<rparr>"

definition keyed_schema :: "string \<Rightarrow> TableSchema" where
  "keyed_schema n =
     \<lparr>TableSchema_Name = n, TableSchema_Columns = [], TableSchema_Indexes = [id_index],
      TableSchema_ForeignKeys = []\<rparr>"







text \<open>Two versions of a table that differ in a column position and in the index kind.\<close>

definition id_column :: "int \<Rightarrow> Column" where
  "id_column p =
     \<lparr>Column_Name = ''id'', Column_Type = ''int'', Column_Nullable = False,
      Column_DefaultValue = None, Column_AutoIncrement = True, Column_Position = p\<rparr>"

definition users_schema :: "int \<Rightarrow> string \<Rightarrow> TableSchema" where
  "users_schema p kind =
     \<lparr>TableSchema_Name = ''users'', TableSchema_Columns = [id_column p],
      TableSchema_Indexes = [id_index\<lparr>Index_Type := kind\<rparr>], TableSchema_ForeignKeys = []\<rparr>"

definition users_schema_orders :: schema_orders where
  "users_schema_orders =
     \<lparr>newColumns_order = [''id''], oldColumns_order = [''id''],
      newIndexes_order = [''PRIMARY''], oldIndexes_order = [''PRIMARY''],
      newFKs_order = [], oldFKs_order = []\<rparr>"

text \<open>Two rows with the same key and different names.\<close>

definition row_a :: "unit Row" where
  "row_a = [''id'' \<mapsto> VInt 1, ''name'' \<mapsto> VString ''a'']"

definition row_b :: "unit Row" where
  "row_b = [''id'' \<mapsto> VInt 1, ''name'' \<mapsto> VString ''b'']"

definition users_data_orders :: "unit data_orders" where
  "users_data_orders =
     \<lparr>newRows_order = [''[1]''], oldRows_order = [''[1]''],
      rowsEqual_order = (\<lambda>_. [''id'', ''name''])\<rparr>"

text \<open>The orders of a comparison of rows of key 1 against no rows.\<close>

definition old_only_data_orders :: "unit data_orders" where
  "old_only_data_orders =
     \<lparr>newRows_order = [], oldRows_order = [''[1]''],
      rowsEqual_order = (\<lambda>_. [''id'', ''name''])\<rparr>"

text \<open>A row holding the number 1 and a row holding the string "1" under the same key.\<close>

definition row_int :: "unit Row" where
  "row_int = [''id'' \<mapsto> VInt 7, ''n'' \<mapsto> VInt 1]"

definition row_str :: "unit Row" where
  "row_str = [''id'' \<mapsto> VInt 7, ''n'' \<mapsto> VString ''1'']"

definition int_str_orders :: "unit data_orders" where
  "int_str_orders =
     \<lparr>newRows_order = [''[7]''], oldRows_order = [''[7]''],
      rowsEqual_order = (\<lambda>_. [''id'', ''n''])\<rparr>"



text \<open>
  A MODIFY diff of a table \<open>users\<close>: a foreign key and a secondary index are modified,
  the primary index is modified, a column is added.
\<close>

definition fk_user :: "string \<Rightarrow> ForeignKey" where
  "fk_user onDelete =
     \<lparr>ForeignKey_Name = ''fk_user'', ForeignKey_Column = ''user_id'',
      ForeignKey_ReferencedTable = ''accounts'', ForeignKey_ReferencedColumn = ''id'',
      ForeignKey_OnDelete = onDelete, ForeignKey_OnUpdate = []\<rparr>"

definition idx_email :: "bool \<Rightarrow> Index" where
  "idx_email unique =
     \<lparr>Index_Name = ''idx_email'', Index_Columns = [''email''], Index_Unique = unique,
      Index_Primary = False, Index_Type = ''BTREE''\<rparr>"

definition phone_column :: Column where
  "phone_column =
     \<lparr>Column_Name = ''phone'', Column_Type = ''VARCHAR(20)'', Column_Nullable = True,
      Column_DefaultValue = None, Column_AutoIncrement = False, Column_Position = 4\<rparr>"

definition users_modify :: SchemaDiff where
  "users_modify =
     \<lparr>SchemaDiff_TableName = ''users'', SchemaDiff_Action = ActionModify,
      SchemaDiff_OldSchema = None, SchemaDiff_NewSchema = None,
      SchemaDiff_ColumnChanges = [mkColumnChange ''phone'' ActionAdd None (Some phone_column)],
      SchemaDiff_IndexChanges =
        [mkIndexChange ''PRIMARY'' ActionModify (Some id_index)
           (Some (id_index\<lparr>Index_Columns := [''id'', ''email'']\<rparr>)),
         mkIndexChange ''idx_email'' ActionModify (Some (idx_email False)) (Some (idx_email True))],
      SchemaDiff_ForeignKeyChanges =
        [mkForeignKeyChange ''fk_user'' ActionModify (Some (fk_user ''CASCADE''))
           (Some (fk_user ''SET NULL''))]\<rparr>"

text \<open>
  An empty snapshot and a snapshot with two tables \<open>a\<close> and \<open>b\<close>; two runs that
  visit the tables in opposite orders.
\<close>

definition snap_empty :: "unit Snapshot" where
  "snap_empty = \<lparr>Snapshot_Metadata = Map.empty, Snapshot_Tables = Map.empty\<rparr>"

definition simple_table :: "string \<Rightarrow> unit Table" where
  "simple_table n =
     \<lparr>Table_Schema =
        \<lparr>TableSchema_Name = n, TableSchema_Columns = [id_column 1], TableSchema_Indexes = [],
         TableSchema_ForeignKeys = []\<rparr>,
      Table_Data = []\<rparr>"

definition snap_ab :: "unit Snapshot" where
  "snap_ab =
     \<lparr>Snapshot_Metadata = Map.empty,
      Snapshot_Tables = [''a'' \<mapsto> simple_table ''a'', ''b'' \<mapsto> simple_table ''b'']\<rparr>"

definition orders_ab :: "unit compare_orders" where
  "orders_ab =
     \<lparr>snap1_order = [], snap2_order = [''a'', ''b''], tableNames_order = [''a'', ''b''],
      table_schema_orders = (\<lambda>_. no_schema_orders), table_data_orders = (\<lambda>_. no_data_orders)\<rparr>"

definition orders_ba :: "unit compare_orders" where
  "orders_ba =
     \<lparr>snap1_order = [], snap2_order = [''b'', ''a''], tableNames_order = [''b'', ''a''],
      table_schema_orders = (\<lambda>_. no_schema_orders), table_data_orders = (\<lambda>_. no_data_orders)\<rparr>"

definition no_dml_orders :: dml_orders where
  "no_dml_orders =
     \<lparr>delete_order = (\<lambda>_. []), insert_order = (\<lambda>_. []), update_set_order = (\<lambda>_. []),
      update_where_order = (\<lambda>_. [])\<rparr>"

definition sql_ab :: sql_orders where
  "sql_ab =
     \<lparr>schemaDiffs_order = [''a'', ''b''], dataDiffs_order = [],
      table_dml_orders = (\<lambda>_. no_dml_orders)\<rparr>"

definition sql_ba :: sql_orders where
  "sql_ba =
     \<lparr>schemaDiffs_order = [''b'', ''a''], dataDiffs_order = [],
      table_dml_orders = (\<lambda>_. no_dml_orders)\<rparr>"

text \<open>
  Two versions of a table \<open>users\<close>, the second with two more columns, and two runs
  that visit the new columns in opposite orders.
\<close>

definition email_column :: Column where
  "email_column =
     \<lparr>Column_Name = ''email'', Column_Type = ''VARCHAR(100)'', Column_Nullable = True,
      Column_DefaultValue = None, Column_AutoIncrement = False, Column_Position = 3\<rparr>"

definition users_old_schema :: TableSchema where
  "users_old_schema =
     \<lparr>TableSchema_Name = ''users'', TableSchema_Columns = [id_column 1],
      TableSchema_Indexes = [id_index], TableSchema_ForeignKeys = []\<rparr>"

definition users_new_schema :: TableSchema where
  "users_new_schema =
     \<lparr>TableSchema_Name = ''users'',
      TableSchema_Columns = [id_column 1, email_column, phone_column],
      TableSchema_Indexes = [id_index], TableSchema_ForeignKeys = []\<rparr>"

definition users_v1 :: "unit Snapshot" where
  "users_v1 =
     \<lparr>Snapshot_Metadata = Map.empty,
      Snapshot_Tables = [''users'' \<mapsto>
        \<lparr>Table_Schema = users_old_schema, Table_Data = []\<rparr>]\<rparr>"

definition users_v2 :: "unit Snapshot" where
  "users_v2 =
     \<lparr>Snapshot_Metadata = Map.empty,
      Snapshot_Tables = [''users'' \<mapsto>
        \<lparr>Table_Schema = users_new_schema, Table_Data = []\<rparr>]\<rparr>"

definition users_orders :: "string list \<Rightarrow> unit compare_orders" where
  "users_orders newColumns =
     \<lparr>snap1_order = [''users''], snap2_order = [''users''], tableNames_order = [''users''],
      table_schema_orders = (\<lambda>_. users_schema_orders\<lparr>newColumns_order := newColumns\<rparr>),
      table_data_orders = (\<lambda>_. no_data_orders)\<rparr>"

text \<open>The CREATE TABLE statement of the MySQL dialect for \<open>simple_table n\<close>.\<close>

definition create_simple :: "string \<Rightarrow> string" where
  "create_simple n =
     ''CREATE TABLE '' @ [CHR 0x60] @ n @ [CHR 0x60] @ '' ('' @ [CHR 0x0A] @ ''  ''
     @ [CHR 0x60] @ ''id'' @ [CHR 0x60] @ '' int NOT NULL AUTO_INCREMENT'' @ [CHR 0x0A] @ '');''"

text \<open>The schema diff of the two \<open>users\<close> schemas, with the added columns in a given order.\<close>

definition users_diff :: "Column list \<Rightarrow> SchemaDiff" where
  "users_diff added =
     \<lparr>SchemaDiff_TableName = ''users'', SchemaDiff_Action = ActionModify,
      SchemaDiff_OldSchema = Some users_old_schema,
      SchemaDiff_NewSchema = Some users_new_schema,
      SchemaDiff_ColumnChanges =
        map (\<lambda>c. mkColumnChange (Column_Name c) ActionAdd None (Some c)) added,
      SchemaDiff_IndexChanges = [], SchemaDiff_ForeignKeyChanges = []\<rparr>"

section \<open>Ranging over maps\<close>

lemma set_range_pairs: "set (range_pairs ks m) = {(k, v). k \<in> set ks \<and> m k = Some v}"
  by (induction ks) (auto simp: range_pairs_def map_filter_simps split: option.splits)

lemma fst_range_pairs: "fst ` set (range_pairs ks m) = set ks \<inter> dom m"
  by (force simp: set_range_pairs)

section \<open>The loop of Compare\<close>

lemma dom_add_names: "dom (add_names kvs m) = dom m \<union> fst ` set kvs"
  unfolding add_names_def
  by (induction kvs arbitrary: m) (auto split: prod.splits)

lemma dom_tableNames_of:
  "dom (tableNames_of ord snap1 snap2) =
     (set (snap1_order ord) \<inter> dom (Snapshot_Tables snap1)) \<union>
     (set (snap2_order ord) \<inter> dom (Snapshot_Tables snap2))"
  by (auto simp: tableNames_of_def dom_add_names fst_range_pairs)

text \<open>The loop visits exactly the names of the tables of the two snapshots.\<close>

lemma visited_tables:
  assumes "compare_orders_ok ord snap1 snap2"
  shows "fst ` set (range_pairs (tableNames_order ord) (tableNames_of ord snap1 snap2)) =
         dom (Snapshot_Tables snap1) \<union> dom (Snapshot_Tables snap2)"
  using assms
  by (auto simp: compare_orders_ok_def is_range_order_def fst_range_pairs dom_tableNames_of)

lemma Compare_table_schema:
  "DiffResult_SchemaDiffs (Compare_table F ord snap1 snap2 t result) =
     (case schema_entry ord snap1 snap2 t of
        None \<Rightarrow> DiffResult_SchemaDiffs result
      | Some d \<Rightarrow> (DiffResult_SchemaDiffs result)(t \<mapsto> d))"
  by (simp add: Compare_table_def schema_entry_def Let_def split: option.splits)

lemma Compare_table_data:
  "DiffResult_DataDiffs (Compare_table F ord snap1 snap2 t result) =
     (case data_entry F ord snap1 snap2 t of
        None \<Rightarrow> DiffResult_DataDiffs result
      | Some d \<Rightarrow> (DiffResult_DataDiffs result)(t \<mapsto> d))"
  by (simp add: Compare_table_def data_entry_def Let_def split: option.splits)

lemma Compare_loop_schema:
  "DiffResult_SchemaDiffs
     (fold (\<lambda>(tableName, _) result. Compare_table F ord snap1 snap2 tableName result)
        kvs result) t =
   (if t \<in> fst ` set kvs then
      (case schema_entry ord snap1 snap2 t of
         None \<Rightarrow> DiffResult_SchemaDiffs result t
       | Some d \<Rightarrow> Some d)
    else DiffResult_SchemaDiffs result t)"
proof (induction kvs arbitrary: result)
  case Nil
  then show ?case by simp
next
  case (Cons kv kvs)
  obtain k v where kv: "kv = (k, v)" by (cases kv)
  show ?case
    by (simp add: kv Cons.IH Compare_table_schema split: option.splits)
qed

lemma Compare_loop_data:
  "DiffResult_DataDiffs
     (fold (\<lambda>(tableName, _) result. Compare_table F ord snap1 snap2 tableName result)
        kvs result) t =
   (if t \<in> fst ` set kvs then
      (case data_entry F ord snap1 snap2 t of
         None \<Rightarrow> DiffResult_DataDiffs result t
       | Some d \<Rightarrow> Some d)
    else DiffResult_DataDiffs result t)"
proof (induction kvs arbitrary: result)
  case Nil
  then show ?case by simp
next
  case (Cons kv kvs)
  obtain k v where kv: "kv = (k, v)" by (cases kv)
  show ?case
    by (simp add: kv Cons.IH Compare_table_data split: option.splits)
qed

lemma Compare_SchemaDiffs:
  assumes "compare_orders_ok ord snap1 snap2"
  shows "DiffResult_SchemaDiffs (Compare F ord snap1 snap2) t = schema_entry ord snap1 snap2 t"
proof -
  have "t \<notin> dom (Snapshot_Tables snap1) \<union> dom (Snapshot_Tables snap2) \<Longrightarrow>
        schema_entry ord snap1 snap2 t = None"
    by (auto simp: schema_entry_def split: option.splits)
  then show ?thesis
    unfolding Compare_def Compare_loop_schema visited_tables[OF assms]
    by (auto split: option.splits)
qed

lemma Compare_DataDiffs:
  assumes "compare_orders_ok ord snap1 snap2"
  shows "DiffResult_DataDiffs (Compare F ord snap1 snap2) t = data_entry F ord snap1 snap2 t"
proof -
  have "t \<notin> dom (Snapshot_Tables snap1) \<union> dom (Snapshot_Tables snap2) \<Longrightarrow>
        data_entry F ord snap1 snap2 t = None"
    by (auto simp: data_entry_def split: option.splits)
  then show ?thesis
    unfolding Compare_def Compare_loop_data visited_tables[OF assms]
    by (auto split: option.splits)
qed

section \<open>Schemas without differences\<close>

lemma added_modified_unchanged:
  "(\<forall>kv\<in>set kvs. \<exists>oldX. oldM (fst kv) = Some oldX \<and> eq oldX (snd kv)) \<Longrightarrow>
   added_modified eq mk oldM kvs changes = changes"
  unfolding added_modified_def
  by (induction kvs arbitrary: changes) (auto split: option.splits)

lemma dropped_unchanged:
  "(\<forall>kv\<in>set kvs. newM (fst kv) \<noteq> None) \<Longrightarrow> dropped mk newM kvs changes = changes"
  unfolding dropped_def
  by (induction kvs arbitrary: changes) (auto split: option.splits)

lemma by_name_rel_aux:
  assumes "list_all2 R xs ys"
    and "\<And>x y. R x y \<Longrightarrow> name x = name y"
    and "\<And>k. rel_option R (m k) (m' k)"
  shows "rel_option R (fold (\<lambda>x m. m(name x \<mapsto> x)) xs m k)
           (fold (\<lambda>x m. m(name x \<mapsto> x)) ys m' k)"
  using assms(1,3)
proof (induction xs ys arbitrary: m m' rule: list_all2_induct)
  case Nil
  then show ?case by simp
next
  case (Cons x xs y ys)
  have "\<And>k. rel_option R ((m(name x \<mapsto> x)) k) ((m'(name y \<mapsto> y)) k)"
    using Cons.hyps(1) Cons.prems assms(2)[OF Cons.hyps(1)] by simp
  from Cons.IH[OF this] show ?case by simp
qed

lemma by_name_rel:
  assumes "list_all2 R xs ys" and "\<And>x y. R x y \<Longrightarrow> name x = name y"
  shows "rel_option R (by_name name xs k) (by_name name ys k)"
proof -
  have "\<And>k. rel_option R ((Map.empty :: string \<rightharpoonup> 'a) k) ((Map.empty :: string \<rightharpoonup> 'a) k)"
    by simp
  from by_name_rel_aux[OF assms this] show ?thesis
    unfolding by_name_def .
qed

text \<open>
  Entries that are related pairwise, by a relation that keeps the name and implies the
  equality the comparison uses, give no change, whatever the two orders.
\<close>

lemma no_changes:
  assumes "list_all2 R xs ys" and "\<And>x y. R x y \<Longrightarrow> name x = name y"
    and "\<And>x y. R x y \<Longrightarrow> eq x y"
  shows "dropped mk (by_name name ys) (range_pairs ks' (by_name name xs))
           (added_modified eq mk (by_name name xs) (range_pairs ks (by_name name ys)) []) = []"
proof -
  have rel: "\<And>k. rel_option R (by_name name xs k) (by_name name ys k)"
    by (rule by_name_rel[OF assms(1,2)])
  have 1: "added_modified eq mk (by_name name xs) (range_pairs ks (by_name name ys)) [] = []"
  proof (rule added_modified_unchanged, rule ballI)
    fix kv assume "kv \<in> set (range_pairs ks (by_name name ys))"
    then have "by_name name ys (fst kv) = Some (snd kv)" by (auto simp: set_range_pairs)
    with rel[of "fst kv"] obtain oldX where "by_name name xs (fst kv) = Some oldX" "R oldX (snd kv)"
      by (auto simp: option_rel_Some2)
    with assms(3) show "\<exists>oldX. by_name name xs (fst kv) = Some oldX \<and> eq oldX (snd kv)" by auto
  qed
  have 2: "dropped mk (by_name name ys) (range_pairs ks' (by_name name xs)) [] = []"
  proof (rule dropped_unchanged, rule ballI)
    fix kv assume "kv \<in> set (range_pairs ks' (by_name name xs))"
    then have "by_name name xs (fst kv) = Some (snd kv)" by (auto simp: set_range_pairs)
    with rel[of "fst kv"] show "by_name name ys (fst kv) \<noteq> None"
      by (auto simp: option_rel_Some1)
  qed
  show ?thesis by (simp add: 1 2)
qed

lemma index_columns_loop_refl: "index_columns_loop xs xs"
  by (induction xs) auto

lemma columnsEqual_Position: "same_but_Position a b \<Longrightarrow> columnsEqual a b"
  by (simp add: same_but_Position_def columnsEqual_def split: option.splits)

lemma indexesEqual_Type: "same_but_Type a b \<Longrightarrow> indexesEqual a b"
  by (simp add: same_but_Type_def indexesEqual_def index_columns_loop_refl)

lemma same_but_Position_Name: "same_but_Position x y \<Longrightarrow> Column_Name x = Column_Name y"
  by (simp add: same_but_Position_def)

lemma same_but_Type_Name: "same_but_Type x y \<Longrightarrow> Index_Name x = Index_Name y"
  by (simp add: same_but_Type_def)

lemma compareSchemas_None:
  assumes "dropped mkColumnChange (by_name Column_Name (TableSchema_Columns new))
            (range_pairs (oldColumns_order ord) (by_name Column_Name (TableSchema_Columns old)))
            (added_modified columnsEqual mkColumnChange
              (by_name Column_Name (TableSchema_Columns old))
              (range_pairs (newColumns_order ord)
                (by_name Column_Name (TableSchema_Columns new))) []) = []"
   and "dropped mkIndexChange (by_name Index_Name (TableSchema_Indexes new))
            (range_pairs (oldIndexes_order ord) (by_name Index_Name (TableSchema_Indexes old)))
            (added_modified indexesEqual mkIndexChange
              (by_name Index_Name (TableSchema_Indexes old))
              (range_pairs (newIndexes_order ord)
                (by_name Index_Name (TableSchema_Indexes new))) []) = []"
   and "dropped mkForeignKeyChange (by_name ForeignKey_Name (TableSchema_ForeignKeys new))
            (range_pairs (oldFKs_order ord)
              (by_name ForeignKey_Name (TableSchema_ForeignKeys old)))
            (added_modified foreignKeysEqual mkForeignKeyChange
              (by_name ForeignKey_Name (TableSchema_ForeignKeys old))
              (range_pairs (newFKs_order ord)
                (by_name ForeignKey_Name (TableSchema_ForeignKeys new))) []) = []"
  shows "compareSchemas ord old new = None"
  unfolding compareSchemas_def Let_def
  apply (subst assms(1))
  apply (subst assms(2))
  apply (subst assms(3))
  apply simp
  done

lemma compareSchemas_unchanged:
  assumes "list_all2 same_but_Position (TableSchema_Columns old) (TableSchema_Columns new)"
    and "list_all2 same_but_Type (TableSchema_Indexes old) (TableSchema_Indexes new)"
    and "TableSchema_ForeignKeys old = TableSchema_ForeignKeys new"
  shows "compareSchemas ord old new = None"
proof (rule compareSchemas_None)
  show "dropped mkColumnChange (by_name Column_Name (TableSchema_Columns new))
            (range_pairs (oldColumns_order ord) (by_name Column_Name (TableSchema_Columns old)))
            (added_modified columnsEqual mkColumnChange
              (by_name Column_Name (TableSchema_Columns old))
              (range_pairs (newColumns_order ord)
                (by_name Column_Name (TableSchema_Columns new))) []) = []"
    by (rule no_changes[OF assms(1) same_but_Position_Name columnsEqual_Position])
  show "dropped mkIndexChange (by_name Index_Name (TableSchema_Indexes new))
            (range_pairs (oldIndexes_order ord) (by_name Index_Name (TableSchema_Indexes old)))
            (added_modified indexesEqual mkIndexChange
              (by_name Index_Name (TableSchema_Indexes old))
              (range_pairs (newIndexes_order ord)
                (by_name Index_Name (TableSchema_Indexes new))) []) = []"
    by (rule no_changes[OF assms(2) same_but_Type_Name indexesEqual_Type])
  have "list_all2 (=) (TableSchema_ForeignKeys old) (TableSchema_ForeignKeys new)"
    by (simp add: assms(3) list.rel_eq)
  then show "dropped mkForeignKeyChange (by_name ForeignKey_Name (TableSchema_ForeignKeys new))
            (range_pairs (oldFKs_order ord)
              (by_name ForeignKey_Name (TableSchema_ForeignKeys old)))
            (added_modified foreignKeysEqual mkForeignKeyChange
              (by_name ForeignKey_Name (TableSchema_ForeignKeys old))
              (range_pairs (newFKs_order ord)
                (by_name ForeignKey_Name (TableSchema_ForeignKeys new))) []) = []"
    by (rule no_changes) (simp_all add: foreignKeysEqual_def)
qed

lemma compareSchemas_same: "compareSchemas ord s s = None"
  by (rule compareSchemas_unchanged)
     (simp_all add: list_all2_same same_but_Position_def same_but_Type_def)

section \<open>The fallback of compareData\<close>

lemma compareData_no_primary_key:
  assumes "getPrimaryKeyColumns tableSchema = []"
  shows "compareData F ord tableName oldData newData tableSchema =
           Some (if length oldData \<noteq> length newData
                 then \<lparr>DataDiff_TableName = tableName, DataDiff_RowsAdded = newData,
                        DataDiff_RowsDeleted = oldData, DataDiff_RowsModified = []\<rparr>
                 else \<lparr>DataDiff_TableName = tableName, DataDiff_RowsAdded = [],
                        DataDiff_RowsDeleted = [], DataDiff_RowsModified = []\<rparr>)"
  using assms by (simp add: compareData_def)

lemma orders_logs_ok: "compare_orders_ok orders_logs snap_logs snap_logs"
  by (simp add: compare_orders_ok_def is_range_order_def orders_logs_def snap_logs_def
      tableNames_of_def add_names_def range_pairs_def map_filter_simps)

section \<open>Order conditions\<close>

lemma add_names_eq:
  "add_names kvs m = (\<lambda>k. if k \<in> fst ` set kvs then Some True else m k)"
  unfolding add_names_def
  by (induction kvs arbitrary: m) (auto split: prod.splits)

lemma tableNames_of_eq:
  "tableNames_of ord snap1 snap2 =
     (\<lambda>k. if k \<in> set (snap1_order ord) \<inter> dom (Snapshot_Tables snap1) \<or>
              k \<in> set (snap2_order ord) \<inter> dom (Snapshot_Tables snap2) then Some True else None)"
  by (auto simp: tableNames_of_def add_names_eq fst_range_pairs)


lemma orders_users_tags_ok: "compare_orders_ok orders_users_tags snap_users snap_tags"
  by (auto simp: compare_orders_ok_def is_range_order_def orders_users_tags_def snap_users_def
      snap_tags_def tableNames_of_eq dom_def split: if_splits)


section \<open>Rows by key\<close>

lemma find_app:
  "find P (xs @ ys) = (case find P xs of None \<Rightarrow> find P ys | Some x \<Rightarrow> Some x)"
  by (induction xs) auto

lemma find_Some_mem: "find P xs = Some x \<Longrightarrow> P x \<and> x \<in> set xs"
  by (induction xs) (auto split: if_splits)

lemma fold_upd_find:
  "fold (\<lambda>x m. m(key x \<mapsto> x)) xs m0 k =
     (case find (\<lambda>x. key x = k) (rev xs) of None \<Rightarrow> m0 k | Some r \<Rightarrow> Some r)"
  by (induction xs arbitrary: m0) (auto simp: find_app split: option.splits)

lemma rows_by_key_last: "rows_by_key F pk rows k = last_of_key F pk rows k"
  by (simp add: rows_by_key_def last_of_key_def fold_upd_find split: option.splits)

lemma last_of_key_key: "last_of_key F pk rows k = Some r \<Longrightarrow> rowKey F r pk = k \<and> r \<in> set rows"
  by (auto simp: last_of_key_def dest: find_Some_mem)

lemma last_of_key_drop_earlier:
  assumes "rowKey F r pk = rowKey F r' pk"
  shows "last_of_key F pk (xs @ r # ys @ r' # zs) k = last_of_key F pk (xs @ ys @ r' # zs) k"
  using assms by (auto simp: last_of_key_def find_app split: option.splits)

lemma rows_by_key_drop_earlier:
  assumes "rowKey F r pk = rowKey F r' pk"
  shows "rows_by_key F pk (xs @ r # ys @ r' # zs) = rows_by_key F pk (xs @ ys @ r' # zs)"
  by (rule ext) (simp add: rows_by_key_last last_of_key_drop_earlier[OF assms])

lemma rowKey_cong:
  "map (row_get r) pk = map (row_get r') pk \<Longrightarrow> rowKey F r pk = rowKey F r' pk"
  by (simp only: rowKey_def)

text \<open>The fields of the diff after the two loops.\<close>

lemma added_modified_rows_fields:
  "DataDiff_TableName (added_modified_rows F ord oldRows kvs d) = DataDiff_TableName d"
  "DataDiff_RowsDeleted (added_modified_rows F ord oldRows kvs d) = DataDiff_RowsDeleted d"
  "DataDiff_RowsAdded (added_modified_rows F ord oldRows kvs d) =
     DataDiff_RowsAdded d @ map snd (filter (\<lambda>kv. oldRows (fst kv) = None) kvs)"
  "DataDiff_RowsModified (added_modified_rows F ord oldRows kvs d) =
     DataDiff_RowsModified d @ concat (map (row_modification F ord oldRows) kvs)"
  unfolding added_modified_rows_def row_modification_def
  by (induction kvs arbitrary: d; simp split: option.splits prod.splits)+

lemma deleted_rows_fields:
  "DataDiff_TableName (deleted_rows newRows kvs d) = DataDiff_TableName d"
  "DataDiff_RowsAdded (deleted_rows newRows kvs d) = DataDiff_RowsAdded d"
  "DataDiff_RowsModified (deleted_rows newRows kvs d) = DataDiff_RowsModified d"
  "DataDiff_RowsDeleted (deleted_rows newRows kvs d) =
     DataDiff_RowsDeleted d @ map snd (filter (\<lambda>kv. newRows (fst kv) = None) kvs)"
  unfolding deleted_rows_def
  by (induction kvs arbitrary: d; simp split: option.splits prod.splits)+

lemma compareData_primary_key:
  assumes "getPrimaryKeyColumns tableSchema = pk" and "pk \<noteq> []"
  shows "compareData F ord t oldData newData tableSchema =
     (if rows_added F ord pk oldData newData = [] \<and> rows_deleted F ord pk oldData newData = []
         \<and> rows_modified F ord pk oldData newData = [] then None
      else Some \<lparr>DataDiff_TableName = t,
                 DataDiff_RowsAdded = rows_added F ord pk oldData newData,
                 DataDiff_RowsDeleted = rows_deleted F ord pk oldData newData,
                 DataDiff_RowsModified = rows_modified F ord pk oldData newData\<rparr>)"
proof -
  let ?d0 = "\<lparr>DataDiff_TableName = t, DataDiff_RowsAdded = [],
              DataDiff_RowsDeleted = [], DataDiff_RowsModified = []\<rparr> :: 'a DataDiff"
  let ?d2 = "deleted_rows (rows_by_key F pk newData)
               (range_pairs (oldRows_order ord) (rows_by_key F pk oldData))
               (added_modified_rows F ord (rows_by_key F pk oldData)
                  (range_pairs (newRows_order ord) (rows_by_key F pk newData)) ?d0)"
  have d2: "?d2 = \<lparr>DataDiff_TableName = t,
                 DataDiff_RowsAdded = rows_added F ord pk oldData newData,
                 DataDiff_RowsDeleted = rows_deleted F ord pk oldData newData,
                 DataDiff_RowsModified = rows_modified F ord pk oldData newData\<rparr>"
    by (rule DataDiff.equality)
       (simp_all add: deleted_rows_fields added_modified_rows_fields rows_added_def
          rows_deleted_def rows_modified_def)
  have "compareData F ord t oldData newData tableSchema =
          (if length (DataDiff_RowsAdded ?d2) = 0 \<and> length (DataDiff_RowsDeleted ?d2) = 0
              \<and> length (DataDiff_RowsModified ?d2) = 0 then None else Some ?d2)"
    using assms by (simp add: compareData_def Let_def)
  then show ?thesis
    unfolding d2 by simp
qed

lemma range_pairs_mem: "kv \<in> set (range_pairs ks m) \<Longrightarrow> m (fst kv) = Some (snd kv)"
  by (auto simp: set_range_pairs)

lemma rows_added_last:
  assumes "a \<in> set (rows_added F ord pk oldData newData)"
  shows "last_of_key F pk newData (rowKey F a pk) = Some a"
proof -
  from assms obtain kv where "kv \<in> set (range_pairs (newRows_order ord) (rows_by_key F pk newData))"
    and "a = snd kv"
    by (auto simp: rows_added_def)
  then have l: "last_of_key F pk newData (fst kv) = Some a"
    by (auto dest: range_pairs_mem simp: rows_by_key_last)
  with last_of_key_key[OF l] show ?thesis by simp
qed

lemma rows_deleted_last:
  assumes "a \<in> set (rows_deleted F ord pk oldData newData)"
  shows "last_of_key F pk oldData (rowKey F a pk) = Some a"
proof -
  from assms obtain kv where "kv \<in> set (range_pairs (oldRows_order ord) (rows_by_key F pk oldData))"
    and "a = snd kv"
    by (auto simp: rows_deleted_def)
  then have l: "last_of_key F pk oldData (fst kv) = Some a"
    by (auto dest: range_pairs_mem simp: rows_by_key_last)
  with last_of_key_key[OF l] show ?thesis by simp
qed

lemma rows_modified_last:
  assumes "m \<in> set (rows_modified F ord pk oldData newData)"
  shows "last_of_key F pk oldData (rowKey F (RowModification_OldRow m) pk)
           = Some (RowModification_OldRow m) \<and>
         last_of_key F pk newData (rowKey F (RowModification_NewRow m) pk)
           = Some (RowModification_NewRow m) \<and>
         rowKey F (RowModification_OldRow m) pk = rowKey F (RowModification_NewRow m) pk"
proof -
  from assms obtain kv where kv: "kv \<in> set (range_pairs (newRows_order ord) (rows_by_key F pk newData))"
    and m: "m \<in> set (row_modification F ord (rows_by_key F pk oldData) kv)"
    by (auto simp: rows_modified_def)
  from m obtain oldRow where o: "rows_by_key F pk oldData (fst kv) = Some oldRow"
    and m': "m = \<lparr>RowModification_OldRow = oldRow, RowModification_NewRow = snd kv\<rparr>"
    by (cases "rows_by_key F pk oldData (fst kv)")
       (auto simp: row_modification_def split: if_splits)
  have n: "last_of_key F pk newData (fst kv) = Some (snd kv)"
    using kv by (auto dest: range_pairs_mem simp: rows_by_key_last)
  have o': "last_of_key F pk oldData (fst kv) = Some oldRow"
    using o by (simp add: rows_by_key_last)
  from last_of_key_key[OF n] last_of_key_key[OF o'] n o' show ?thesis
    by (simp add: m')
qed

lemma rowKey_row_a: "rowKey no_floats row_a [''id''] = ''[1]''"
  by (simp add: rowKey_def row_a_def json_Marshal_slice_def row_get_def fmt_d_def)

lemma rowKey_row_b: "rowKey no_floats row_b [''id''] = ''[1]''"
  by (simp add: rowKey_def row_b_def json_Marshal_slice_def row_get_def fmt_d_def)

lemma rowsEqual_row_b: "rowsEqual no_floats [''id'', ''name''] row_b row_b"
  by (simp add: rowsEqual_def range_pairs_def map_filter_simps row_b_def)

lemma pk_keyed: "getPrimaryKeyColumns (keyed_schema n) = [''id'']"
  by (simp add: getPrimaryKeyColumns_def keyed_schema_def id_index_def)

lemma compareData_row_b:
  "compareData no_floats users_data_orders ''users'' [row_b] [row_b] (keyed_schema ''users'') = None"
  by (simp add: compareData_primary_key[OF pk_keyed] rows_added_def rows_deleted_def
      rows_modified_def rows_by_key_def rowKey_row_b range_pairs_def map_filter_simps
      users_data_orders_def row_modification_def rowsEqual_row_b)

text \<open>The three lists as sets of last rows.\<close>

lemma rows_added_set:
  assumes "is_range_order (newRows_order ord) (rows_by_key F pk newData)"
  shows "set (rows_added F ord pk oldData newData) = last_rows_added F pk oldData newData"
proof -
  have ks: "set (newRows_order ord) = dom (rows_by_key F pk newData)"
    using assms by (simp add: is_range_order_def)
  show ?thesis
    unfolding rows_added_def last_rows_added_def
    by (force simp: set_range_pairs ks rows_by_key_last image_iff domIff)
qed

lemma rows_deleted_set:
  assumes "is_range_order (oldRows_order ord) (rows_by_key F pk oldData)"
  shows "set (rows_deleted F ord pk oldData newData) = last_rows_deleted F pk oldData newData"
proof -
  have ks: "set (oldRows_order ord) = dom (rows_by_key F pk oldData)"
    using assms by (simp add: is_range_order_def)
  show ?thesis
    unfolding rows_deleted_def last_rows_deleted_def
    by (force simp: set_range_pairs ks rows_by_key_last image_iff domIff)
qed

lemma row_modification_mem:
  "m \<in> set (row_modification F ord oldRows kv) \<longleftrightarrow>
     oldRows (fst kv) = Some (RowModification_OldRow m) \<and> RowModification_NewRow m = snd kv \<and>
     \<not> rowsEqual F (rowsEqual_order ord (RowModification_OldRow m))
         (RowModification_OldRow m) (snd kv)"
proof (cases "oldRows (fst kv)")
  case None
  then show ?thesis by (simp add: row_modification_def)
next
  case (Some oldRow)
  have eq: "m = \<lparr>RowModification_OldRow = oldRow, RowModification_NewRow = snd kv\<rparr> \<longleftrightarrow>
        RowModification_OldRow m = oldRow \<and> RowModification_NewRow m = snd kv"
    by (cases m) simp
  show ?thesis
    by (simp add: row_modification_def Some eq) blast
qed

lemma rows_modified_set:
  assumes "is_range_order (newRows_order ord) (rows_by_key F pk newData)"
  shows "set (rows_modified F ord pk oldData newData) = last_rows_modified F ord pk oldData newData"
proof -
  have ks: "set (newRows_order ord) = dom (rows_by_key F pk newData)"
    using assms by (simp add: is_range_order_def)
  have "m \<in> set (rows_modified F ord pk oldData newData) \<longleftrightarrow>
        m \<in> last_rows_modified F ord pk oldData newData" for m
  proof
    assume "m \<in> set (rows_modified F ord pk oldData newData)"
    then obtain kv where kv: "kv \<in> set (range_pairs (newRows_order ord) (rows_by_key F pk newData))"
      and m: "m \<in> set (row_modification F ord (rows_by_key F pk oldData) kv)"
      by (auto simp: rows_modified_def)
    from range_pairs_mem[OF kv] m show "m \<in> last_rows_modified F ord pk oldData newData"
      unfolding last_rows_modified_def row_modification_mem
      by (auto simp: rows_by_key_last intro!: exI[of _ "fst kv"])
  next
    assume "m \<in> last_rows_modified F ord pk oldData newData"
    then obtain k where o: "last_of_key F pk oldData k = Some (RowModification_OldRow m)"
      and n: "last_of_key F pk newData k = Some (RowModification_NewRow m)"
      and ne: "\<not> rowsEqual F (rowsEqual_order ord (RowModification_OldRow m))
                 (RowModification_OldRow m) (RowModification_NewRow m)"
      by (auto simp: last_rows_modified_def)
    have "(k, RowModification_NewRow m) \<in>
            set (range_pairs (newRows_order ord) (rows_by_key F pk newData))"
      using n by (auto simp: set_range_pairs ks rows_by_key_last)
    moreover have "m \<in> set (row_modification F ord (rows_by_key F pk oldData)
                              (k, RowModification_NewRow m))"
      using o ne by (simp add: row_modification_mem rows_by_key_last)
    ultimately show "m \<in> set (rows_modified F ord pk oldData newData)"
      unfolding rows_modified_def by (simp del: row_modification_mem) blast
  qed
  then show ?thesis by blast
qed

lemma last_of_key_later:
  assumes "rowKey F r pk = rowKey F r' pk"
    and "\<forall>z\<in>set zs. rowKey F z pk \<noteq> rowKey F r' pk"
  shows "last_of_key F pk (xs @ r # ys @ r' # zs) (rowKey F r pk) = Some r'"
proof -
  have "find (\<lambda>row. rowKey F row pk = rowKey F r' pk) (rev zs) = None"
    using assms(2) by (simp add: find_None_iff)
  then show ?thesis
    by (simp add: last_of_key_def find_app assms(1))
qed

lemma compareData_primary_key_sets:
  assumes "getPrimaryKeyColumns tableSchema = pk" and "pk \<noteq> []"
    and "data_orders_ok F ord oldData newData tableSchema"
  shows "(compareData F ord t oldData newData tableSchema = None \<longleftrightarrow>
            last_rows_added F pk oldData newData = {} \<and>
            last_rows_deleted F pk oldData newData = {} \<and>
            last_rows_modified F ord pk oldData newData = {})"
    and "compareData F ord t oldData newData tableSchema = Some d \<Longrightarrow>
            DataDiff_TableName d = t \<and>
            set (DataDiff_RowsAdded d) = last_rows_added F pk oldData newData \<and>
            set (DataDiff_RowsDeleted d) = last_rows_deleted F pk oldData newData \<and>
            set (DataDiff_RowsModified d) = last_rows_modified F ord pk oldData newData"
proof -
  from assms(3) have n: "is_range_order (newRows_order ord) (rows_by_key F pk newData)"
    and o: "is_range_order (oldRows_order ord) (rows_by_key F pk oldData)"
    by (simp_all add: data_orders_ok_def Let_def assms(1))
  have e: "rows_added F ord pk oldData newData = [] \<longleftrightarrow> last_rows_added F pk oldData newData = {}"
    "rows_deleted F ord pk oldData newData = [] \<longleftrightarrow> last_rows_deleted F pk oldData newData = {}"
    "rows_modified F ord pk oldData newData = [] \<longleftrightarrow>
       last_rows_modified F ord pk oldData newData = {}"
    by (simp_all flip: rows_added_set[OF n] rows_deleted_set[OF o] rows_modified_set[OF n])
  show "(compareData F ord t oldData newData tableSchema = None \<longleftrightarrow>
            last_rows_added F pk oldData newData = {} \<and>
            last_rows_deleted F pk oldData newData = {} \<and>
            last_rows_modified F ord pk oldData newData = {})"
    by (simp add: compareData_primary_key[OF assms(1,2)] e)
  assume "compareData F ord t oldData newData tableSchema = Some d"
  then have d: "d = \<lparr>DataDiff_TableName = t,
                 DataDiff_RowsAdded = rows_added F ord pk oldData newData,
                 DataDiff_RowsDeleted = rows_deleted F ord pk oldData newData,
                 DataDiff_RowsModified = rows_modified F ord pk oldData newData\<rparr>"
    by (simp add: compareData_primary_key[OF assms(1,2)] split: if_splits)
  show "DataDiff_TableName d = t \<and>
            set (DataDiff_RowsAdded d) = last_rows_added F pk oldData newData \<and>
            set (DataDiff_RowsDeleted d) = last_rows_deleted F pk oldData newData \<and>
            set (DataDiff_RowsModified d) = last_rows_modified F ord pk oldData newData"
    by (simp add: d rows_added_set[OF n] rows_deleted_set[OF o] rows_modified_set[OF n])
qed






lemma compareData_row_b_deleted:
  "compareData no_floats old_only_data_orders ''users'' [row_b] [] (keyed_schema ''users'') =
     Some \<lparr>DataDiff_TableName = ''users'', DataDiff_RowsAdded = [],
            DataDiff_RowsDeleted = [row_b], DataDiff_RowsModified = []\<rparr>"
  by (simp add: compareData_primary_key[OF pk_keyed] rows_added_def rows_deleted_def
      rows_modified_def rows_by_key_def rowKey_row_b range_pairs_def map_filter_simps
      old_only_data_orders_def row_modification_def)

lemma old_only_data_orders_ok:
  "data_orders_ok no_floats old_only_data_orders [row_a, row_b] [] (keyed_schema ''users'')"
proof -
  have "dom row_a = {''id'', ''name''}" "dom row_b = {''id'', ''name''}"
    by (auto simp: row_a_def row_b_def)
  then show ?thesis
    by (simp add: data_orders_ok_def pk_keyed is_range_order_def old_only_data_orders_def
        rows_by_key_def rowKey_row_a rowKey_row_b)
qed

lemma rowsEqual_loop_iff:
  "rowsEqual_loop F kvs b \<longleftrightarrow>
     (\<forall>kv\<in>set kvs. \<exists>valB. b (fst kv) = Some valB \<and> json_text F (snd kv) = json_text F valB)"
  by (induction kvs) (auto split: option.splits if_splits)

lemma rowsEqual_iff:
  assumes "set ks = dom a" and "finite (dom b)"
  shows "rowsEqual F ks a b \<longleftrightarrow>
           dom a = dom b \<and> (\<forall>k\<in>dom a. json_text F (row_get a k) = json_text F (row_get b k))"
proof
  assume eq: "rowsEqual F ks a b"
  then have card: "card (dom a) = card (dom b)"
    and loop: "rowsEqual_loop F (range_pairs ks a) b"
    by (auto simp: rowsEqual_def split: if_splits)
  have each: "\<exists>vb. b k = Some vb \<and> json_text F va = json_text F vb" if "a k = Some va" for k va
  proof -
    from that assms(1) have "(k, va) \<in> set (range_pairs ks a)"
      by (auto simp: set_range_pairs)
    with loop show ?thesis
      by (auto simp: rowsEqual_loop_iff)
  qed
  then have "dom a \<subseteq> dom b" by auto
  with card assms(2) have "dom a = dom b"
    by (simp add: card_subset_eq)
  moreover have "\<forall>k\<in>dom a. json_text F (row_get a k) = json_text F (row_get b k)"
  proof
    fix k assume "k \<in> dom a"
    then obtain va where va: "a k = Some va" by auto
    from each[OF va] obtain vb where "b k = Some vb" "json_text F va = json_text F vb"
      by auto
    with va show "json_text F (row_get a k) = json_text F (row_get b k)"
      by (simp add: row_get_def)
  qed
  ultimately show "dom a = dom b \<and> (\<forall>k\<in>dom a. json_text F (row_get a k) = json_text F (row_get b k))"
    by simp
next
  assume r: "dom a = dom b \<and> (\<forall>k\<in>dom a. json_text F (row_get a k) = json_text F (row_get b k))"
  have "rowsEqual_loop F (range_pairs ks a) b"
    unfolding rowsEqual_loop_iff
  proof
    fix kv assume "kv \<in> set (range_pairs ks a)"
    then have a: "a (fst kv) = Some (snd kv)" by (rule range_pairs_mem)
    with r obtain vb where b: "b (fst kv) = Some vb" by (metis domD domI)
    from r a have "json_text F (row_get a (fst kv)) = json_text F (row_get b (fst kv))"
      by (metis domI)
    with a b show "\<exists>valB. b (fst kv) = Some valB \<and> json_text F (snd kv) = json_text F valB"
      by (simp add: row_get_def)
  qed
  with r show "rowsEqual F ks a b"
    by (simp add: rowsEqual_def)
qed

lemma json_text_int_1: "json_text no_floats (VInt 1) = ''1''"
  by (simp add: json_text_def fmt_d_def)

lemma json_text_str_1: "json_text no_floats (VString ''1'') = [CHR 0x22, CHR ''1'', CHR 0x22]"
  by (simp add: json_text_def)

lemma dom_row_int: "dom row_int = {''id'', ''n''}"
  by (auto simp: row_int_def)

lemma dom_row_str: "dom row_str = {''id'', ''n''}"
  by (auto simp: row_str_def)

lemma rowKey_row_int: "rowKey no_floats row_int [''id''] = ''[7]''"
  by (simp add: rowKey_def row_int_def json_Marshal_slice_def row_get_def fmt_d_def)

lemma rowKey_row_str: "rowKey no_floats row_str [''id''] = ''[7]''"
  by (simp add: rowKey_def row_str_def json_Marshal_slice_def row_get_def fmt_d_def)

lemma rowsEqual_int_str: "\<not> rowsEqual no_floats [''id'', ''n''] row_int row_str"
  by (simp add: rowsEqual_def range_pairs_def map_filter_simps row_int_def row_str_def
      json_text_int_1 json_text_str_1 json_text_def fmt_d_def)

section \<open>The SET clause\<close>




section \<open>The loops of the DDL generator\<close>

lemma drop_foreign_keys_loop_eq:
  "list_all foreign_key_change_ok changes \<Longrightarrow>
   drop_foreign_keys_loop g t changes statements =
     Some (statements @ drop_foreign_key_statements g t changes)"
  unfolding drop_foreign_key_statements_def
  by (induction changes arbitrary: statements)
     (auto simp: foreign_key_change_ok_def split: option.splits)

lemma drop_indexes_loop_eq:
  "list_all index_change_ok changes \<Longrightarrow>
   drop_indexes_loop g t changes statements =
     Some (statements @ drop_index_statements g t changes)"
  unfolding drop_index_statements_def
  by (induction changes arbitrary: statements)
     (auto simp: index_change_ok_def split: option.splits)

lemma column_changes_loop_eq:
  "list_all column_change_ok changes \<Longrightarrow>
   column_changes_loop g t changes statements =
     Some (statements @ column_statements g t changes)"
  unfolding column_statements_def
  by (induction changes arbitrary: statements)
     (auto simp: column_change_ok_def split: option.splits Action.splits)

lemma add_indexes_loop_eq:
  "list_all index_change_ok changes \<Longrightarrow>
   add_indexes_loop g t changes statements =
     Some (statements @ create_index_statements g t changes)"
  unfolding create_index_statements_def
  by (induction changes arbitrary: statements)
     (auto simp: index_change_ok_def split: option.splits)

lemma add_foreign_keys_loop_eq:
  "list_all foreign_key_change_ok changes \<Longrightarrow>
   add_foreign_keys_loop g t changes statements =
     Some (statements @ add_foreign_key_statements g t changes)"
  unfolding add_foreign_key_statements_def
  by (induction changes arbitrary: statements)
     (auto simp: foreign_key_change_ok_def split: option.splits)

text \<open>The diffs that \<open>compareSchemas\<close> makes are MODIFY diffs with well-formed changes.\<close>

lemma added_modified_all:
  assumes "list_all P changes"
    and "\<And>n old new. P (mk n ActionModify (Some old) (Some new))"
    and "\<And>n new. P (mk n ActionAdd None (Some new))"
  shows "list_all P (added_modified eq mk oldM kvs changes)"
  using assms(1) unfolding added_modified_def
  by (induction kvs arbitrary: changes) (auto simp: assms(2,3) split: option.splits)

lemma dropped_all:
  assumes "list_all P changes"
    and "\<And>n old. P (mk n ActionDrop (Some old) None)"
  shows "list_all P (dropped mk newM kvs changes)"
  using assms(1) unfolding dropped_def
  by (induction kvs arbitrary: changes) (auto simp: assms(2) split: option.splits)

lemma reconciled_all:
  assumes "\<And>n old new. P (mk n ActionModify (Some old) (Some new))"
    and "\<And>n new. P (mk n ActionAdd None (Some new))"
    and "\<And>n old. P (mk n ActionDrop (Some old) None)"
  shows "list_all P (dropped mk newM kvs' (added_modified eq mk oldM kvs []))"
  by (rule dropped_all[OF added_modified_all]) (simp_all add: assms)

lemma compareSchemas_Some:
  assumes "compareSchemas ord old new = Some sd"
  shows "sd = \<lparr>SchemaDiff_TableName = TableSchema_Name new,
                SchemaDiff_Action = ActionModify,
                SchemaDiff_OldSchema = Some old,
                SchemaDiff_NewSchema = Some new,
                SchemaDiff_ColumnChanges =
                  dropped mkColumnChange (by_name Column_Name (TableSchema_Columns new))
                    (range_pairs (oldColumns_order ord)
                       (by_name Column_Name (TableSchema_Columns old)))
                    (added_modified columnsEqual mkColumnChange
                       (by_name Column_Name (TableSchema_Columns old))
                       (range_pairs (newColumns_order ord)
                          (by_name Column_Name (TableSchema_Columns new))) []),
                SchemaDiff_IndexChanges =
                  dropped mkIndexChange (by_name Index_Name (TableSchema_Indexes new))
                    (range_pairs (oldIndexes_order ord)
                       (by_name Index_Name (TableSchema_Indexes old)))
                    (added_modified indexesEqual mkIndexChange
                       (by_name Index_Name (TableSchema_Indexes old))
                       (range_pairs (newIndexes_order ord)
                          (by_name Index_Name (TableSchema_Indexes new))) []),
                SchemaDiff_ForeignKeyChanges =
                  dropped mkForeignKeyChange
                    (by_name ForeignKey_Name (TableSchema_ForeignKeys new))
                    (range_pairs (oldFKs_order ord)
                       (by_name ForeignKey_Name (TableSchema_ForeignKeys old)))
                    (added_modified foreignKeysEqual mkForeignKeyChange
                       (by_name ForeignKey_Name (TableSchema_ForeignKeys old))
                       (range_pairs (newFKs_order ord)
                          (by_name ForeignKey_Name (TableSchema_ForeignKeys new))) [])\<rparr>"
  using assms unfolding compareSchemas_def Let_def
  by (simp split: if_splits)

lemma compareSchemas_well_formed:
  assumes "compareSchemas ord old new = Some sd"
  shows "SchemaDiff_Action sd = ActionModify \<and> changes_well_formed sd"
  unfolding compareSchemas_Some[OF assms] changes_well_formed_def
  by (simp add: reconciled_all column_change_ok_def index_change_ok_def
      foreign_key_change_ok_def mkColumnChange_def mkIndexChange_def mkForeignKeyChange_def)

section \<open>Results up to the order of the loops\<close>

lemma mset_map_filter_cong:
  "mset xs = mset ys \<Longrightarrow> mset (List.map_filter f xs) = mset (List.map_filter f ys)"
  by (simp add: map_filter_def)

lemma mset_range_pairs:
  assumes "is_range_order ks m" and "is_range_order ks' m"
  shows "mset (range_pairs ks m) = mset (range_pairs ks' m)"
proof -
  from assms have "mset ks = mset ks'"
    by (simp add: is_range_order_def set_eq_iff_mset_eq_distinct[symmetric])
  then show ?thesis
    unfolding range_pairs_def by (rule mset_map_filter_cong)
qed

lemma mset_concat_map_cong:
  "mset xs = mset ys \<Longrightarrow> mset (concat (map f xs)) = mset (concat (map f ys))"
proof -
  have "mset (concat (map f zs)) = sum_mset (image_mset (\<lambda>z. mset (f z)) (mset zs))" for zs
    by (induction zs) simp_all
  then show "mset xs = mset ys \<Longrightarrow> ?thesis" by simp
qed

lemma mset_map_filter_list_cong:
  "mset xs = mset ys \<Longrightarrow> mset (map g (filter P xs)) = mset (map g (filter P ys))"
  by simp

text \<open>The two loops of a reconciliation without the accumulator.\<close>

lemma added_modified_eq:
  "added_modified eq mk oldM kvs changes =
     changes @ concat (map (\<lambda>kv.
        case oldM (fst kv) of
          Some oldX \<Rightarrow>
            if \<not> eq oldX (snd kv) then [mk (fst kv) ActionModify (Some oldX) (Some (snd kv))]
            else []
        | None \<Rightarrow> [mk (fst kv) ActionAdd None (Some (snd kv))]) kvs)"
  unfolding added_modified_def
  by (induction kvs arbitrary: changes) (auto split: option.splits)

lemma dropped_eq:
  "dropped mk newM kvs changes =
     changes @ concat (map (\<lambda>kv.
        case newM (fst kv) of
          Some _ \<Rightarrow> []
        | None \<Rightarrow> [mk (fst kv) ActionDrop (Some (snd kv)) None]) kvs)"
  unfolding dropped_def
  by (induction kvs arbitrary: changes) (auto split: option.splits)

lemma mset_reconciled:
  assumes "is_range_order ks newM" and "is_range_order ks' newM"
    and "is_range_order js oldM" and "is_range_order js' oldM"
  shows "mset (dropped mk newM (range_pairs js oldM)
                 (added_modified eq mk oldM (range_pairs ks newM) [])) =
         mset (dropped mk newM (range_pairs js' oldM)
                 (added_modified eq mk oldM (range_pairs ks' newM) []))"
  unfolding dropped_eq added_modified_eq
  by (simp add: mset_concat_map_cong[OF mset_range_pairs[OF assms(1,2)]]
      mset_concat_map_cong[OF mset_range_pairs[OF assms(3,4)]])

lemma compareSchemas_eq:
  "compareSchemas ord old new =
     (if column_changes ord old new = [] \<and> index_changes ord old new = []
         \<and> foreign_key_changes ord old new = [] then None
      else Some \<lparr>SchemaDiff_TableName = TableSchema_Name new,
                 SchemaDiff_Action = ActionModify,
                 SchemaDiff_OldSchema = Some old,
                 SchemaDiff_NewSchema = Some new,
                 SchemaDiff_ColumnChanges = column_changes ord old new,
                 SchemaDiff_IndexChanges = index_changes ord old new,
                 SchemaDiff_ForeignKeyChanges = foreign_key_changes ord old new\<rparr>)"
  unfolding compareSchemas_def Let_def column_changes_def index_changes_def
    foreign_key_changes_def
  by simp

lemma compareSchemas_orders:
  assumes "schema_orders_ok ord old new" and "schema_orders_ok ord' old new"
  shows "rel_option same_schema_diff (compareSchemas ord old new) (compareSchemas ord' old new)"
proof -
  have c: "mset (column_changes ord old new) = mset (column_changes ord' old new)"
    unfolding column_changes_def
    by (rule mset_reconciled) (use assms in \<open>simp_all add: schema_orders_ok_def\<close>)
  have i: "mset (index_changes ord old new) = mset (index_changes ord' old new)"
    unfolding index_changes_def
    by (rule mset_reconciled) (use assms in \<open>simp_all add: schema_orders_ok_def\<close>)
  have f: "mset (foreign_key_changes ord old new) = mset (foreign_key_changes ord' old new)"
    unfolding foreign_key_changes_def
    by (rule mset_reconciled) (use assms in \<open>simp_all add: schema_orders_ok_def\<close>)
  have e: "column_changes ord old new = [] \<longleftrightarrow> column_changes ord' old new = []"
    "index_changes ord old new = [] \<longleftrightarrow> index_changes ord' old new = []"
    "foreign_key_changes ord old new = [] \<longleftrightarrow> foreign_key_changes ord' old new = []"
    using c i f by (metis mset_zero_iff)+
  show ?thesis
    unfolding compareSchemas_eq using c i f e
    by (simp add: same_schema_diff_def)
qed

lemma rowsEqual_order_indep:
  assumes "is_range_order ks a" and "is_range_order ks' a"
  shows "rowsEqual F ks a b = rowsEqual F ks' a b"
  using assms
  by (simp add: rowsEqual_def rowsEqual_loop_iff set_range_pairs is_range_order_def)

lemma row_modification_orders:
  assumes "list_all (\<lambda>row. is_range_order (rowsEqual_order ord row) row) oldData"
    and "list_all (\<lambda>row. is_range_order (rowsEqual_order ord' row) row) oldData"
  shows "row_modification F ord (rows_by_key F pk oldData) kv =
         row_modification F ord' (rows_by_key F pk oldData) kv"
proof (cases "rows_by_key F pk oldData (fst kv)")
  case None
  then show ?thesis by (simp add: row_modification_def)
next
  case (Some oldRow)
  then have "oldRow \<in> set oldData"
    by (auto simp: rows_by_key_last dest: last_of_key_key)
  with assms have "is_range_order (rowsEqual_order ord oldRow) oldRow"
    "is_range_order (rowsEqual_order ord' oldRow) oldRow"
    by (simp_all add: list_all_iff)
  from rowsEqual_order_indep[OF this] Some show ?thesis
    by (simp add: row_modification_def)
qed

lemma compareData_orders:
  assumes "data_orders_ok F ord oldData newData tableSchema"
    and "data_orders_ok F ord' oldData newData tableSchema"
  shows "rel_option same_data_diff (compareData F ord t oldData newData tableSchema)
           (compareData F ord' t oldData newData tableSchema)"
proof (cases "getPrimaryKeyColumns tableSchema = []")
  case True
  show ?thesis
    by (simp add: compareData_no_primary_key[OF True] same_data_diff_def)
next
  case False
  define pk where "pk = getPrimaryKeyColumns tableSchema"
  have pk: "getPrimaryKeyColumns tableSchema = pk" "pk \<noteq> []"
    using False by (simp_all add: pk_def)
  from assms have n: "mset (range_pairs (newRows_order ord) (rows_by_key F pk newData)) =
      mset (range_pairs (newRows_order ord') (rows_by_key F pk newData))"
    and o: "mset (range_pairs (oldRows_order ord) (rows_by_key F pk oldData)) =
      mset (range_pairs (oldRows_order ord') (rows_by_key F pk oldData))"
    and r: "list_all (\<lambda>row. is_range_order (rowsEqual_order ord row) row) oldData"
      "list_all (\<lambda>row. is_range_order (rowsEqual_order ord' row) row) oldData"
    by (simp_all add: data_orders_ok_def Let_def pk mset_range_pairs)
  have a: "mset (rows_added F ord pk oldData newData) = mset (rows_added F ord' pk oldData newData)"
    unfolding rows_added_def by (rule mset_map_filter_list_cong[OF n])
  have d: "mset (rows_deleted F ord pk oldData newData) =
           mset (rows_deleted F ord' pk oldData newData)"
    unfolding rows_deleted_def by (rule mset_map_filter_list_cong[OF o])
  have "row_modification F ord (rows_by_key F pk oldData) =
        row_modification F ord' (rows_by_key F pk oldData)"
    by (rule ext) (rule row_modification_orders[OF r])
  then have m: "mset (rows_modified F ord pk oldData newData) =
           mset (rows_modified F ord' pk oldData newData)"
    unfolding rows_modified_def by (simp add: mset_concat_map_cong[OF n])
  have e: "rows_added F ord pk oldData newData = [] \<longleftrightarrow> rows_added F ord' pk oldData newData = []"
    "rows_deleted F ord pk oldData newData = [] \<longleftrightarrow> rows_deleted F ord' pk oldData newData = []"
    "rows_modified F ord pk oldData newData = [] \<longleftrightarrow>
       rows_modified F ord' pk oldData newData = []"
    using a d m by (metis mset_zero_iff)+
  show ?thesis
    unfolding compareData_primary_key[OF pk] using a d m e
    by (simp add: same_data_diff_def)
qed

lemma same_schema_diff_refl: "same_schema_diff d d"
  by (simp add: same_schema_diff_def)

lemma users_orders_ok:
  assumes "distinct cs" and "set cs = {''id'', ''email'', ''phone''}"
  shows "all_orders_ok no_floats (users_orders cs) users_v1 users_v2"
proof -
  have 1: "compare_orders_ok (users_orders cs) users_v1 users_v2"
    by (auto simp: compare_orders_ok_def is_range_order_def users_orders_def users_v1_def
        users_v2_def tableNames_of_eq dom_def split: if_splits)
  have 2: "schema_orders_ok (users_schema_orders\<lparr>newColumns_order := cs\<rparr>)
        users_old_schema users_new_schema"
    using assms
    by (auto simp: schema_orders_ok_def is_range_order_def users_schema_orders_def by_name_def
        users_old_schema_def users_new_schema_def
        id_column_def email_column_def phone_column_def id_index_def)
  have 3: "data_orders_ok no_floats no_data_orders [] [] users_new_schema"
    by (simp add: data_orders_ok_def is_range_order_def no_data_orders_def rows_by_key_def)
  show ?thesis
    unfolding all_orders_ok_def
    using 1 2 3 by (simp add: users_v1_def users_v2_def users_orders_def)
qed

lemma orders_ab_ok: "compare_orders_ok orders_ab snap_empty snap_ab"
  by (auto simp: compare_orders_ok_def is_range_order_def orders_ab_def snap_empty_def
      snap_ab_def tableNames_of_eq dom_def split: if_splits)

lemma orders_ba_ok: "compare_orders_ok orders_ba snap_empty snap_ab"
  by (auto simp: compare_orders_ok_def is_range_order_def orders_ba_def snap_empty_def
      snap_ab_def tableNames_of_eq dom_def split: if_splits)

lemma schema_entry_ab:
  "schema_entry ord snap_empty snap_ab =
     [''a'' \<mapsto> \<lparr>SchemaDiff_TableName = ''a'', SchemaDiff_Action = ActionAdd,
                   SchemaDiff_OldSchema = None,
                   SchemaDiff_NewSchema = Some (Table_Schema (simple_table ''a'')),
                   SchemaDiff_ColumnChanges = [], SchemaDiff_IndexChanges = [],
                   SchemaDiff_ForeignKeyChanges = []\<rparr>,
      ''b'' \<mapsto> \<lparr>SchemaDiff_TableName = ''b'', SchemaDiff_Action = ActionAdd,
                   SchemaDiff_OldSchema = None,
                   SchemaDiff_NewSchema = Some (Table_Schema (simple_table ''b'')),
                   SchemaDiff_ColumnChanges = [], SchemaDiff_IndexChanges = [],
                   SchemaDiff_ForeignKeyChanges = []\<rparr>]"
  by (rule ext) (simp add: schema_entry_def snap_empty_def snap_ab_def)

lemma data_entry_ab: "data_entry F ord snap_empty snap_ab = Map.empty"
  by (rule ext) (simp add: data_entry_def snap_empty_def)

lemma Compare_ab:
  assumes "compare_orders_ok ord snap_empty snap_ab"
  shows "DiffResult_SchemaDiffs (Compare no_floats ord snap_empty snap_ab) =
           schema_entry ord snap_empty snap_ab"
    and "DiffResult_DataDiffs (Compare no_floats ord snap_empty snap_ab) = Map.empty"
  by (rule ext, simp add: Compare_SchemaDiffs[OF assms])
     (rule ext, simp add: Compare_DataDiffs[OF assms] data_entry_ab)

lemma DDL_Generate_simple:
  "DDL_Generate (NewDDLGenerator ''mysql'')
     \<lparr>SchemaDiff_TableName = n, SchemaDiff_Action = ActionAdd,
      SchemaDiff_OldSchema = None,
      SchemaDiff_NewSchema = Some (Table_Schema (simple_table n)),
      SchemaDiff_ColumnChanges = [], SchemaDiff_IndexChanges = [],
      SchemaDiff_ForeignKeyChanges = []\<rparr> = Some (create_simple n)"
  by (simp add: DDL_Generate_def DDL_statements_def generateCreateTable_def simple_table_def
      columnDefinition_def id_column_def DDL_quoteIdentifier_def NewDDLGenerator_def
      create_simple_def)

lemma create_simple_nonempty: "create_simple n \<noteq> []"
  by (simp add: create_simple_def)

section \<open>A snapshot against itself\<close>

lemma rowsEqual_refl: "rowsEqual F ks r r"
  by (auto simp: rowsEqual_def rowsEqual_loop_iff dest: range_pairs_mem)

lemma compareData_same:
  assumes "getPrimaryKeyColumns tableSchema \<noteq> []"
  shows "compareData F ord t rows rows tableSchema = None"
proof -
  define pk where "pk = getPrimaryKeyColumns tableSchema"
  have pk: "getPrimaryKeyColumns tableSchema = pk" "pk \<noteq> []"
    using assms by (simp_all add: pk_def)
  have a: "rows_added F ord pk rows rows = []"
    by (auto simp: rows_added_def filter_empty_conv dest: range_pairs_mem)
  have d: "rows_deleted F ord pk rows rows = []"
    by (auto simp: rows_deleted_def filter_empty_conv dest: range_pairs_mem)
  have "row_modification F ord (rows_by_key F pk rows) kv = []"
    if "kv \<in> set (range_pairs (newRows_order ord) (rows_by_key F pk rows))" for kv
    using range_pairs_mem[OF that] by (simp add: row_modification_def rowsEqual_refl)
  then have m: "rows_modified F ord pk rows rows = []"
    by (simp add: rows_modified_def)
  show ?thesis
    by (simp add: compareData_primary_key[OF pk] a d m)
qed

text \<open>
  When every table has a primary key with at least one column, comparing a snapshot
  with itself leaves both maps empty.
\<close>

lemma Compare_same_snapshot_primary_keys:
  assumes "compare_orders_ok ord S S"
    and "\<And>t tb. Snapshot_Tables S t = Some tb \<Longrightarrow> getPrimaryKeyColumns (Table_Schema tb) \<noteq> []"
  shows "DiffResult_SchemaDiffs (Compare F ord S S) = Map.empty \<and>
         DiffResult_DataDiffs (Compare F ord S S) = Map.empty"
proof
  show "DiffResult_SchemaDiffs (Compare F ord S S) = Map.empty"
  proof
    fix n
    show "DiffResult_SchemaDiffs (Compare F ord S S) n = None"
      by (simp add: Compare_SchemaDiffs[OF assms(1)] schema_entry_def compareSchemas_same
          split: option.splits)
  qed
  show "DiffResult_DataDiffs (Compare F ord S S) = Map.empty"
  proof
    fix n
    show "DiffResult_DataDiffs (Compare F ord S S) n = None"
      by (simp add: Compare_DataDiffs[OF assms(1)] data_entry_def compareData_same assms(2)
          split: option.splits)
  qed
qed

lemma users_by_name:
  "by_name Column_Name [id_column 1] = [''id'' \<mapsto> id_column 1]"
  "by_name Column_Name [id_column 1, email_column, phone_column] =
     [''id'' \<mapsto> id_column 1, ''email'' \<mapsto> email_column, ''phone'' \<mapsto> phone_column]"
  "by_name Index_Name [id_index] = [''PRIMARY'' \<mapsto> id_index]"
  "by_name ForeignKey_Name [] = Map.empty"
  by (simp_all add: by_name_def id_column_def email_column_def phone_column_def id_index_def)

lemma users_equal: "columnsEqual (id_column 1) (id_column 1)" "indexesEqual id_index id_index"
  by (simp_all add: columnsEqual_def indexesEqual_def index_columns_loop_refl
      split: option.splits)

lemma users_names: "Column_Name email_column = ''email''" "Column_Name phone_column = ''phone''"
  by (simp_all add: email_column_def phone_column_def)

lemma users_index_changes:
  "index_changes (users_schema_orders\<lparr>newColumns_order := cs\<rparr>) users_old_schema
     users_new_schema = []"
  by (simp add: index_changes_def users_old_schema_def users_new_schema_def users_by_name
      dropped_eq added_modified_eq users_schema_orders_def range_pairs_def map_filter_simps
      users_equal)

lemma users_foreign_key_changes:
  "foreign_key_changes (users_schema_orders\<lparr>newColumns_order := cs\<rparr>) users_old_schema
     users_new_schema = []"
  by (simp add: foreign_key_changes_def users_old_schema_def users_new_schema_def users_by_name
      dropped_eq added_modified_eq users_schema_orders_def range_pairs_def map_filter_simps)

lemma users_column_changes:
  "column_changes (users_schema_orders\<lparr>newColumns_order := [''id'', ''email'', ''phone'']\<rparr>)
     users_old_schema users_new_schema =
   [mkColumnChange ''email'' ActionAdd None (Some email_column),
    mkColumnChange ''phone'' ActionAdd None (Some phone_column)]"
  "column_changes (users_schema_orders\<lparr>newColumns_order := [''phone'', ''email'', ''id'']\<rparr>)
     users_old_schema users_new_schema =
   [mkColumnChange ''phone'' ActionAdd None (Some phone_column),
    mkColumnChange ''email'' ActionAdd None (Some email_column)]"
  by (simp_all add: column_changes_def users_old_schema_def users_new_schema_def users_by_name
      dropped_eq added_modified_eq users_schema_orders_def range_pairs_def map_filter_simps
      users_equal)

lemma users_compareSchemas:
  "compareSchemas (users_schema_orders\<lparr>newColumns_order := [''id'', ''email'', ''phone'']\<rparr>)
     users_old_schema users_new_schema = Some (users_diff [email_column, phone_column])"
  "compareSchemas (users_schema_orders\<lparr>newColumns_order := [''phone'', ''email'', ''id'']\<rparr>)
     users_old_schema users_new_schema = Some (users_diff [phone_column, email_column])"
  by (simp_all add: compareSchemas_eq users_index_changes users_foreign_key_changes
      users_column_changes users_diff_def users_names)
     (simp_all add: users_new_schema_def)

lemma users_SchemaDiffs:
  "DiffResult_SchemaDiffs
     (Compare no_floats (users_orders [''id'', ''email'', ''phone'']) users_v1 users_v2) ''users'' =
   Some (users_diff [email_column, phone_column])"
  "DiffResult_SchemaDiffs
     (Compare no_floats (users_orders [''phone'', ''email'', ''id'']) users_v1 users_v2) ''users'' =
   Some (users_diff [phone_column, email_column])"
proof -
  have 1: "compare_orders_ok (users_orders [''id'', ''email'', ''phone'']) users_v1 users_v2"
    using users_orders_ok[of "[''id'', ''email'', ''phone'']"]
    by (auto simp: all_orders_ok_def)
  have 2: "compare_orders_ok (users_orders [''phone'', ''email'', ''id'']) users_v1 users_v2"
    using users_orders_ok[of "[''phone'', ''email'', ''id'']"]
    by (auto simp: all_orders_ok_def)
  show "DiffResult_SchemaDiffs
     (Compare no_floats (users_orders [''id'', ''email'', ''phone'']) users_v1 users_v2) ''users'' =
   Some (users_diff [email_column, phone_column])"
    unfolding Compare_SchemaDiffs[OF 1]
    by (simp add: schema_entry_def users_v1_def users_v2_def users_orders_def
        users_compareSchemas)
  show "DiffResult_SchemaDiffs
     (Compare no_floats (users_orders [''phone'', ''email'', ''id'']) users_v1 users_v2) ''users'' =
   Some (users_diff [phone_column, email_column])"
    unfolding Compare_SchemaDiffs[OF 2]
    by (simp add: schema_entry_def users_v1_def users_v2_def users_orders_def
        users_compareSchemas)
qed

lemma users_diff_differ:
  "users_diff [email_column, phone_column] \<noteq> users_diff [phone_column, email_column]"
  by (simp add: users_diff_def users_names mkColumnChange_def)

section \<open>The claims\<close>

text \<open>
  C1. The claim: for every snapshot S, \<open>Compare S S\<close> has empty \<open>SchemaDiffs\<close> and
  \<open>DataDiffs\<close>. The first half holds. The second fails for a table without a primary
  key: the fallback of \<open>compareData\<close> returns its (empty) diff record and not nil, and
  \<open>Compare\<close> stores it. For any snapshot with such a table \<open>t\<close>, \<open>SchemaDiffs\<close> is
  empty and \<open>DataDiffs\<close> has an entry for \<open>t\<close> with three empty lists.
\<close>

theorem C1_same_snapshot_no_primary_key:
  assumes "compare_orders_ok ord S S"
    and "Snapshot_Tables S t = Some tb"
    and "getPrimaryKeyColumns (Table_Schema tb) = []"
  shows "DiffResult_SchemaDiffs (Compare F ord S S) = Map.empty \<and>
         DiffResult_DataDiffs (Compare F ord S S) t =
           Some \<lparr>DataDiff_TableName = t, DataDiff_RowsAdded = [],
                  DataDiff_RowsDeleted = [], DataDiff_RowsModified = []\<rparr>"
proof
  show "DiffResult_SchemaDiffs (Compare F ord S S) = Map.empty"
  proof
    fix n
    show "DiffResult_SchemaDiffs (Compare F ord S S) n = None"
      by (simp add: Compare_SchemaDiffs[OF assms(1)] schema_entry_def compareSchemas_same
          split: option.splits)
  qed
  show "DiffResult_DataDiffs (Compare F ord S S) t =
           Some \<lparr>DataDiff_TableName = t, DataDiff_RowsAdded = [],
                  DataDiff_RowsDeleted = [], DataDiff_RowsModified = []\<rparr>"
    by (simp add: Compare_DataDiffs[OF assms(1)] data_entry_def assms(2)
        compareData_no_primary_key[OF assms(3)])
qed

theorem C1_same_snapshot_no_primary_key_witness:
  "DiffResult_SchemaDiffs (Compare no_floats orders_logs snap_logs snap_logs) = Map.empty \<and>
   DiffResult_DataDiffs (Compare no_floats orders_logs snap_logs snap_logs) ''logs'' =
     Some \<lparr>DataDiff_TableName = ''logs'', DataDiff_RowsAdded = [],
            DataDiff_RowsDeleted = [], DataDiff_RowsModified = []\<rparr>"
  using C1_same_snapshot_no_primary_key[OF orders_logs_ok,
      of "''logs''" "bare_table ''logs'' [[''msg'' \<mapsto> VString ''x'']]" no_floats]
  by (simp add: snap_logs_def bare_table_def bare_schema_def getPrimaryKeyColumns_def)

text \<open>
  C2. The claim: without a primary index, \<open>compareData\<close> reports all old rows deleted
  and all new rows added when the row counts differ, and returns none when they are
  equal. The first half holds. With equal counts the code returns a diff record with
  three empty lists, not none: the fallback returns before the check that turns an
  empty diff into nil.
\<close>

theorem C2_no_primary_key_fallback:
  assumes "getPrimaryKeyColumns tableSchema = []"
  shows "(length oldData \<noteq> length newData \<longrightarrow>
            compareData F ord tableName oldData newData tableSchema =
              Some \<lparr>DataDiff_TableName = tableName, DataDiff_RowsAdded = newData,
                     DataDiff_RowsDeleted = oldData, DataDiff_RowsModified = []\<rparr>) \<and>
         (length oldData = length newData \<longrightarrow>
            compareData F ord tableName oldData newData tableSchema =
              Some \<lparr>DataDiff_TableName = tableName, DataDiff_RowsAdded = [],
                     DataDiff_RowsDeleted = [], DataDiff_RowsModified = []\<rparr>)"
  by (simp add: compareData_no_primary_key[OF assms])

theorem C2_no_primary_key_fallback_witness:
  "compareData no_floats no_data_orders ''logs'' [[''msg'' \<mapsto> VString ''x'']]
      [[''msg'' \<mapsto> VString ''y'']] (bare_schema ''logs'') =
    Some \<lparr>DataDiff_TableName = ''logs'', DataDiff_RowsAdded = [],
           DataDiff_RowsDeleted = [], DataDiff_RowsModified = []\<rparr> \<and>
   compareData no_floats no_data_orders ''logs'' [[''msg'' \<mapsto> VString ''x'']] []
      (bare_schema ''logs'') =
    Some \<lparr>DataDiff_TableName = ''logs'', DataDiff_RowsAdded = [],
           DataDiff_RowsDeleted = [[''msg'' \<mapsto> VString ''x'']], DataDiff_RowsModified = []\<rparr>"
  using C2_no_primary_key_fallback[of "bare_schema ''logs''"
      "[[''msg'' \<mapsto> VString ''x'']]" "[[''msg'' \<mapsto> VString ''y'']]"
      no_floats no_data_orders "''logs''"]
    C2_no_primary_key_fallback[of "bare_schema ''logs''"
      "[[''msg'' \<mapsto> VString ''x'']]" "[]" no_floats no_data_orders "''logs''"]
  by (simp add: getPrimaryKeyColumns_def bare_schema_def)

text \<open>
  C3. The claim: two calls of \<open>Compare\<close> on the same snapshots give the same script,
  with the same order of tables and statements. The loops range over Go maps, whose
  order is not fixed, and nothing sorts. What holds for two runs on the same
  snapshots: for every table the two results record a schema diff in both runs or in
  neither, and a data diff in both or in neither, and the two diffs of a table agree
  in everything but the order of the entries of their lists.
\<close>

theorem C3_same_result_up_to_order:
  assumes "all_orders_ok F ord snap1 snap2" and "all_orders_ok F ord' snap1 snap2"
  shows "rel_option same_schema_diff
           (DiffResult_SchemaDiffs (Compare F ord snap1 snap2) t)
           (DiffResult_SchemaDiffs (Compare F ord' snap1 snap2) t) \<and>
         rel_option same_data_diff
           (DiffResult_DataDiffs (Compare F ord snap1 snap2) t)
           (DiffResult_DataDiffs (Compare F ord' snap1 snap2) t)"
proof -
  from assms have ok: "compare_orders_ok ord snap1 snap2" "compare_orders_ok ord' snap1 snap2"
    by (simp_all add: all_orders_ok_def)
  have both: "schema_orders_ok (table_schema_orders ord t) (Table_Schema table1) (Table_Schema table2)
      \<and> schema_orders_ok (table_schema_orders ord' t) (Table_Schema table1) (Table_Schema table2)
      \<and> data_orders_ok F (table_data_orders ord t) (Table_Data table1) (Table_Data table2)
             (Table_Schema table2)
      \<and> data_orders_ok F (table_data_orders ord' t) (Table_Data table1) (Table_Data table2)
             (Table_Schema table2)"
    if "Snapshot_Tables snap1 t = Some table1" "Snapshot_Tables snap2 t = Some table2"
    for table1 table2
    using assms that by (simp add: all_orders_ok_def)
  show ?thesis
    unfolding Compare_SchemaDiffs[OF ok(1)] Compare_SchemaDiffs[OF ok(2)]
      Compare_DataDiffs[OF ok(1)] Compare_DataDiffs[OF ok(2)] schema_entry_def data_entry_def
    using both
    by (auto split: option.splits
        simp: same_schema_diff_refl compareSchemas_orders compareData_orders)
qed

theorem C3_same_result_up_to_order_witness:
  "DiffResult_SchemaDiffs
     (Compare no_floats (users_orders [''id'', ''email'', ''phone'']) users_v1 users_v2) ''users'' =
     Some (users_diff [email_column, phone_column]) \<and>
   DiffResult_SchemaDiffs
     (Compare no_floats (users_orders [''phone'', ''email'', ''id'']) users_v1 users_v2) ''users'' =
     Some (users_diff [phone_column, email_column]) \<and>
   users_diff [email_column, phone_column] \<noteq> users_diff [phone_column, email_column] \<and>
   same_schema_diff (users_diff [email_column, phone_column])
     (users_diff [phone_column, email_column]) \<and>
   rel_option same_data_diff
     (DiffResult_DataDiffs
        (Compare no_floats (users_orders [''id'', ''email'', ''phone'']) users_v1 users_v2)
        ''users'')
     (DiffResult_DataDiffs
        (Compare no_floats (users_orders [''phone'', ''email'', ''id'']) users_v1 users_v2)
        ''users'')"
proof -
  have 1: "all_orders_ok no_floats (users_orders [''id'', ''email'', ''phone'']) users_v1 users_v2"
    by (rule users_orders_ok) auto
  have 2: "all_orders_ok no_floats (users_orders [''phone'', ''email'', ''id'']) users_v1 users_v2"
    by (rule users_orders_ok) auto
  from C3_same_result_up_to_order[OF 1 2, of "''users''"] users_diff_differ show ?thesis
    by (simp add: users_SchemaDiffs)
qed

text \<open>
  Two runs on the same two snapshots, the second snapshot having two new tables:
  the run that visits \<open>a\<close> first and the run that visits \<open>b\<close> first give the two
  CREATE TABLE statements in opposite orders.
\<close>

theorem C3_script_order_counterexample:
  "compare_orders_ok orders_ab snap_empty snap_ab \<and>
   compare_orders_ok orders_ba snap_empty snap_ab \<and>
   sql_orders_ok sql_ab (Compare no_floats orders_ab snap_empty snap_ab) \<and>
   sql_orders_ok sql_ba (Compare no_floats orders_ba snap_empty snap_ab) \<and>
   GenerateSQL no_floats sql_ab (Compare no_floats orders_ab snap_empty snap_ab) ''mysql'' =
     Some (create_simple ''a'' @ [CHR 0x0A, CHR 0x0A] @ create_simple ''b'') \<and>
   GenerateSQL no_floats sql_ba (Compare no_floats orders_ba snap_empty snap_ab) ''mysql'' =
     Some (create_simple ''b'' @ [CHR 0x0A, CHR 0x0A] @ create_simple ''a'') \<and>
   GenerateSQL no_floats sql_ab (Compare no_floats orders_ab snap_empty snap_ab) ''mysql'' \<noteq>
   GenerateSQL no_floats sql_ba (Compare no_floats orders_ba snap_empty snap_ab) ''mysql''"
proof -
  have ok1: "sql_orders_ok sql_ab (Compare no_floats orders_ab snap_empty snap_ab)"
    by (auto simp: sql_orders_ok_def is_range_order_def Compare_ab[OF orders_ab_ok]
        schema_entry_ab sql_ab_def)
  have ok2: "sql_orders_ok sql_ba (Compare no_floats orders_ba snap_empty snap_ab)"
    by (auto simp: sql_orders_ok_def is_range_order_def Compare_ab[OF orders_ba_ok]
        schema_entry_ab sql_ba_def)
  have g1: "GenerateSQL no_floats sql_ab (Compare no_floats orders_ab snap_empty snap_ab) ''mysql'' =
     Some (create_simple ''a'' @ [CHR 0x0A, CHR 0x0A] @ create_simple ''b'')"
    by (simp add: GenerateSQL_def Compare_ab[OF orders_ab_ok] schema_entry_ab sql_ab_def
        range_pairs_def map_filter_simps DDL_Generate_simple create_simple_nonempty
        dml_loop_def)
  have g2: "GenerateSQL no_floats sql_ba (Compare no_floats orders_ba snap_empty snap_ab) ''mysql'' =
     Some (create_simple ''b'' @ [CHR 0x0A, CHR 0x0A] @ create_simple ''a'')"
    by (simp add: GenerateSQL_def Compare_ab[OF orders_ba_ok] schema_entry_ab sql_ba_def
        range_pairs_def map_filter_simps DDL_Generate_simple create_simple_nonempty
        dml_loop_def)
  have ne: "create_simple ''a'' @ [CHR 0x0A, CHR 0x0A] @ create_simple ''b'' \<noteq>
            create_simple ''b'' @ [CHR 0x0A, CHR 0x0A] @ create_simple ''a''"
    by (simp add: create_simple_def)
  show ?thesis
    using orders_ab_ok orders_ba_ok ok1 ok2 g1 g2 ne by simp
qed

text \<open>
  C4. The claim: the row comparison of \<open>compareData\<close> treats two values with the
  same logical content as equal whatever their representation, an integer and its
  string form for one. The code compares the JSON texts of the values. What holds:
  two rows are equal exactly when they have the same columns and in every column the
  two values have the same JSON text (the text being empty when the value cannot be
  encoded).
\<close>

theorem C4_rows_equal_by_json_text:
  assumes "is_range_order ks a" and "finite (dom b)"
  shows "rowsEqual F ks a b \<longleftrightarrow>
           dom a = dom b \<and> (\<forall>k\<in>dom a. json_text F (row_get a k) = json_text F (row_get b k))"
  using assms by (intro rowsEqual_iff) (simp_all add: is_range_order_def)

theorem C4_rows_equal_by_json_text_witness:
  "rowsEqual no_floats [''id'', ''n''] row_int row_int \<and>
   \<not> rowsEqual no_floats [''id'', ''n''] row_int row_str"
proof -
  have o: "is_range_order [''id'', ''n''] row_int"
    by (auto simp: is_range_order_def dom_row_int)
  have f: "finite (dom row_int)" "finite (dom row_str)"
    by (simp_all add: dom_row_int dom_row_str)
  show ?thesis
    unfolding C4_rows_equal_by_json_text[OF o f(1)] C4_rows_equal_by_json_text[OF o f(2)]
    by (simp add: dom_row_int dom_row_str)
       (simp add: row_int_def row_str_def row_get_def json_text_int_1 json_text_str_1)
qed

text \<open>
  The integer 1 and the string "1" print alike with \<^verbatim>\<open>%v\<close> but have the JSON texts
  \<^verbatim>\<open>1\<close> and \<^verbatim>\<open>"1"\<close>: rows that differ in nothing else are unequal, and
  \<open>compareData\<close> reports the row as modified.
\<close>

theorem C4_integer_and_string_form_counterexample:
  "fmt_v no_floats (VInt 1) = fmt_v no_floats (VString ''1'') \<and>
   \<not> rowsEqual no_floats [''id'', ''n''] row_int row_str \<and>
   compareData no_floats int_str_orders ''users'' [row_int] [row_str] (keyed_schema ''users'') =
     Some \<lparr>DataDiff_TableName = ''users'', DataDiff_RowsAdded = [], DataDiff_RowsDeleted = [],
            DataDiff_RowsModified =
              [\<lparr>RowModification_OldRow = row_int, RowModification_NewRow = row_str\<rparr>]\<rparr>"
proof (intro conjI)
  show "fmt_v no_floats (VInt 1) = fmt_v no_floats (VString ''1'')"
    by (simp add: fmt_d_def)
  show "\<not> rowsEqual no_floats [''id'', ''n''] row_int row_str"
    by (rule rowsEqual_int_str)
  show "compareData no_floats int_str_orders ''users'' [row_int] [row_str] (keyed_schema ''users'') =
     Some \<lparr>DataDiff_TableName = ''users'', DataDiff_RowsAdded = [], DataDiff_RowsDeleted = [],
            DataDiff_RowsModified =
              [\<lparr>RowModification_OldRow = row_int, RowModification_NewRow = row_str\<rparr>]\<rparr>"
    by (simp add: compareData_primary_key[OF pk_keyed] rows_added_def rows_deleted_def
      rows_modified_def rows_by_key_def rowKey_row_int rowKey_row_str range_pairs_def
      map_filter_simps int_str_orders_def row_modification_def rowsEqual_int_str)
qed

text \<open>
  C5. For a MODIFY diff with well-formed changes the statements of \<open>Generate\<close> are,
  in this order: the drops of the foreign keys dropped or modified, by their old
  names; the drops of the indexes dropped or modified whose old entry is not primary;
  the column changes; the creations of the indexes added or modified whose new entry
  is not primary; the additions of the foreign keys added or modified, from their new
  entries. The result of \<open>Generate\<close> is these statements joined by newlines. Within a
  group the statements follow the order of the change list.
\<close>

theorem C5_modify_statement_order:
  assumes "SchemaDiff_Action sd = ActionModify" and "changes_well_formed sd"
  shows "DDL_statements g sd =
           Some (drop_foreign_key_statements g (SchemaDiff_TableName sd)
                   (SchemaDiff_ForeignKeyChanges sd)
                 @ drop_index_statements g (SchemaDiff_TableName sd) (SchemaDiff_IndexChanges sd)
                 @ column_statements g (SchemaDiff_TableName sd) (SchemaDiff_ColumnChanges sd)
                 @ create_index_statements g (SchemaDiff_TableName sd)
                     (SchemaDiff_IndexChanges sd)
                 @ add_foreign_key_statements g (SchemaDiff_TableName sd)
                     (SchemaDiff_ForeignKeyChanges sd)) \<and>
         DDL_Generate g sd =
           Some (Join
                  (drop_foreign_key_statements g (SchemaDiff_TableName sd)
                     (SchemaDiff_ForeignKeyChanges sd)
                   @ drop_index_statements g (SchemaDiff_TableName sd)
                       (SchemaDiff_IndexChanges sd)
                   @ column_statements g (SchemaDiff_TableName sd) (SchemaDiff_ColumnChanges sd)
                   @ create_index_statements g (SchemaDiff_TableName sd)
                       (SchemaDiff_IndexChanges sd)
                   @ add_foreign_key_statements g (SchemaDiff_TableName sd)
                       (SchemaDiff_ForeignKeyChanges sd)) [CHR 0x0A])"
proof -
  from assms(2) have c: "list_all column_change_ok (SchemaDiff_ColumnChanges sd)"
    and i: "list_all index_change_ok (SchemaDiff_IndexChanges sd)"
    and f: "list_all foreign_key_change_ok (SchemaDiff_ForeignKeyChanges sd)"
    by (simp_all add: changes_well_formed_def)
  have s: "DDL_statements g sd =
           Some (drop_foreign_key_statements g (SchemaDiff_TableName sd)
                   (SchemaDiff_ForeignKeyChanges sd)
                 @ drop_index_statements g (SchemaDiff_TableName sd) (SchemaDiff_IndexChanges sd)
                 @ column_statements g (SchemaDiff_TableName sd) (SchemaDiff_ColumnChanges sd)
                 @ create_index_statements g (SchemaDiff_TableName sd)
                     (SchemaDiff_IndexChanges sd)
                 @ add_foreign_key_statements g (SchemaDiff_TableName sd)
                     (SchemaDiff_ForeignKeyChanges sd))"
    by (simp add: DDL_statements_def assms(1) drop_foreign_keys_loop_eq[OF f]
        drop_indexes_loop_eq[OF i] column_changes_loop_eq[OF c] add_indexes_loop_eq[OF i]
        add_foreign_keys_loop_eq[OF f])
  show ?thesis
    unfolding DDL_Generate_def s by simp
qed

theorem C5_modify_statement_order_witness:
  "DDL_statements (NewDDLGenerator ''mysql'') users_modify =
     Some [generateDropForeignKey (NewDDLGenerator ''mysql'') ''users'' ''fk_user'',
           generateDropIndex (NewDDLGenerator ''mysql'') ''users'' ''idx_email'',
           generateAddColumn (NewDDLGenerator ''mysql'') ''users'' phone_column,
           generateCreateIndex (NewDDLGenerator ''mysql'') ''users'' (idx_email True),
           generateAddForeignKey (NewDDLGenerator ''mysql'') ''users'' (fk_user ''SET NULL'')]"
proof -
  have a: "SchemaDiff_Action users_modify = ActionModify"
    by (simp add: users_modify_def)
  have w: "changes_well_formed users_modify"
    by (simp add: users_modify_def changes_well_formed_def column_change_ok_def
        index_change_ok_def foreign_key_change_ok_def mkColumnChange_def mkIndexChange_def
        mkForeignKeyChange_def)
  show ?thesis
    unfolding C5_modify_statement_order[OF a w, THEN conjunct1]
    by (simp add: users_modify_def drop_foreign_key_statements_def drop_index_statements_def
        column_statements_def create_index_statements_def add_foreign_key_statements_def
        mkColumnChange_def mkIndexChange_def mkForeignKeyChange_def id_index_def idx_email_def
        fk_user_def)
qed




text \<open>
  C7. A table that only the second snapshot has gets a schema diff with action ADD
  and its new schema, and no data diff; a table that only the first snapshot has gets
  a schema diff with action DROP and its old schema, and no data diff.
\<close>

theorem C7_table_in_one_snapshot:
  assumes "compare_orders_ok ord snap1 snap2"
  shows "(Snapshot_Tables snap1 t = None \<and> Snapshot_Tables snap2 t = Some table2 \<longrightarrow>
            DiffResult_SchemaDiffs (Compare F ord snap1 snap2) t =
              Some \<lparr>SchemaDiff_TableName = t, SchemaDiff_Action = ActionAdd,
                     SchemaDiff_OldSchema = None, SchemaDiff_NewSchema = Some (Table_Schema table2),
                     SchemaDiff_ColumnChanges = [], SchemaDiff_IndexChanges = [],
                     SchemaDiff_ForeignKeyChanges = []\<rparr> \<and>
            DiffResult_DataDiffs (Compare F ord snap1 snap2) t = None) \<and>
         (Snapshot_Tables snap1 t = Some table1 \<and> Snapshot_Tables snap2 t = None \<longrightarrow>
            DiffResult_SchemaDiffs (Compare F ord snap1 snap2) t =
              Some \<lparr>SchemaDiff_TableName = t, SchemaDiff_Action = ActionDrop,
                     SchemaDiff_OldSchema = Some (Table_Schema table1), SchemaDiff_NewSchema = None,
                     SchemaDiff_ColumnChanges = [], SchemaDiff_IndexChanges = [],
                     SchemaDiff_ForeignKeyChanges = []\<rparr> \<and>
            DiffResult_DataDiffs (Compare F ord snap1 snap2) t = None)"
  by (simp add: Compare_SchemaDiffs[OF assms] Compare_DataDiffs[OF assms]
      schema_entry_def data_entry_def)

theorem C7_table_in_one_snapshot_witness:
  "DiffResult_SchemaDiffs (Compare no_floats orders_users_tags snap_users snap_tags) ''tags'' =
     Some \<lparr>SchemaDiff_TableName = ''tags'', SchemaDiff_Action = ActionAdd,
            SchemaDiff_OldSchema = None, SchemaDiff_NewSchema = Some (bare_schema ''tags''),
            SchemaDiff_ColumnChanges = [], SchemaDiff_IndexChanges = [],
            SchemaDiff_ForeignKeyChanges = []\<rparr> \<and>
   DiffResult_DataDiffs (Compare no_floats orders_users_tags snap_users snap_tags) ''tags'' = None \<and>
   DiffResult_SchemaDiffs (Compare no_floats orders_users_tags snap_users snap_tags) ''users'' =
     Some \<lparr>SchemaDiff_TableName = ''users'', SchemaDiff_Action = ActionDrop,
            SchemaDiff_OldSchema = Some (bare_schema ''users''), SchemaDiff_NewSchema = None,
            SchemaDiff_ColumnChanges = [], SchemaDiff_IndexChanges = [],
            SchemaDiff_ForeignKeyChanges = []\<rparr> \<and>
   DiffResult_DataDiffs (Compare no_floats orders_users_tags snap_users snap_tags) ''users'' = None"
  using C7_table_in_one_snapshot[OF orders_users_tags_ok, of "''tags''" "bare_table ''tags'' []"
      no_floats "bare_table ''users'' []"]
    C7_table_in_one_snapshot[OF orders_users_tags_ok, of "''users''" "bare_table ''tags'' []"
      no_floats "bare_table ''users'' []"]
  by (simp add: snap_users_def snap_tags_def bare_table_def)



text \<open>
  C9. With a primary key, when a row sequence holds two rows with the same primary
  key values, \<open>compareData\<close> gives the same result as for the sequence without the
  earlier of the two, on the old and on the new side. Every row in the added, deleted
  and modified lists is the last row of its key in its sequence, and the two rows of a
  modification have the same key. The key map holds for every key the last row of
  that key, so the later of the two rows when no row after it has the key. In a run
  (orders that list every key once) the rows reported are exactly the last rows: the
  added rows are the last rows of the keys that only the new data has, the deleted rows
  the last rows of the keys that only the old data has, the modifications the pairs of
  last rows of a common key that \<open>rowsEqual\<close> tells apart, and the result is absent
  exactly when there is none of them.
\<close>

theorem C9_duplicate_key_last_row_wins:
  assumes "getPrimaryKeyColumns tableSchema = pk" and "pk \<noteq> []"
    and "map (row_get r) pk = map (row_get r') pk"
  shows "compareData F ord t (xs @ r # ys @ r' # zs) newData tableSchema =
           compareData F ord t (xs @ ys @ r' # zs) newData tableSchema \<and>
         compareData F ord t oldData (xs @ r # ys @ r' # zs) tableSchema =
           compareData F ord t oldData (xs @ ys @ r' # zs) tableSchema \<and>
         (compareData F ord t oldData newData tableSchema = Some d \<longrightarrow>
            (\<forall>a\<in>set (DataDiff_RowsAdded d). last_of_key F pk newData (rowKey F a pk) = Some a) \<and>
            (\<forall>a\<in>set (DataDiff_RowsDeleted d). last_of_key F pk oldData (rowKey F a pk) = Some a) \<and>
            (\<forall>m\<in>set (DataDiff_RowsModified d).
               last_of_key F pk oldData (rowKey F (RowModification_OldRow m) pk)
                 = Some (RowModification_OldRow m) \<and>
               last_of_key F pk newData (rowKey F (RowModification_NewRow m) pk)
                 = Some (RowModification_NewRow m) \<and>
               rowKey F (RowModification_OldRow m) pk = rowKey F (RowModification_NewRow m) pk)) \<and>
         rows_by_key F pk rows k = last_of_key F pk rows k \<and>
         ((\<forall>z\<in>set zs. rowKey F z pk \<noteq> rowKey F r' pk) \<longrightarrow>
            rows_by_key F pk (xs @ r # ys @ r' # zs) (rowKey F r pk) = Some r') \<and>
         (data_orders_ok F ord oldData newData tableSchema \<longrightarrow>
            (compareData F ord t oldData newData tableSchema = None \<longleftrightarrow>
               last_rows_added F pk oldData newData = {} \<and>
               last_rows_deleted F pk oldData newData = {} \<and>
               last_rows_modified F ord pk oldData newData = {}) \<and>
            (compareData F ord t oldData newData tableSchema = Some d \<longrightarrow>
               DataDiff_TableName d = t \<and>
               set (DataDiff_RowsAdded d) = last_rows_added F pk oldData newData \<and>
               set (DataDiff_RowsDeleted d) = last_rows_deleted F pk oldData newData \<and>
               set (DataDiff_RowsModified d) = last_rows_modified F ord pk oldData newData))"
proof -
  have k: "rowKey F r pk = rowKey F r' pk"
    by (rule rowKey_cong[OF assms(3)])
  have 1: "compareData F ord t (xs @ r # ys @ r' # zs) newData tableSchema =
           compareData F ord t (xs @ ys @ r' # zs) newData tableSchema"
    by (simp add: compareData_primary_key[OF assms(1,2)] rows_added_def rows_deleted_def
        rows_modified_def rows_by_key_drop_earlier[OF k])
  have 2: "compareData F ord t oldData (xs @ r # ys @ r' # zs) tableSchema =
           compareData F ord t oldData (xs @ ys @ r' # zs) tableSchema"
    by (simp add: compareData_primary_key[OF assms(1,2)] rows_added_def rows_deleted_def
        rows_modified_def rows_by_key_drop_earlier[OF k])
  have 3: "(\<forall>a\<in>set (DataDiff_RowsAdded d). last_of_key F pk newData (rowKey F a pk) = Some a) \<and>
            (\<forall>a\<in>set (DataDiff_RowsDeleted d). last_of_key F pk oldData (rowKey F a pk) = Some a) \<and>
            (\<forall>m\<in>set (DataDiff_RowsModified d).
               last_of_key F pk oldData (rowKey F (RowModification_OldRow m) pk)
                 = Some (RowModification_OldRow m) \<and>
               last_of_key F pk newData (rowKey F (RowModification_NewRow m) pk)
                 = Some (RowModification_NewRow m) \<and>
               rowKey F (RowModification_OldRow m) pk = rowKey F (RowModification_NewRow m) pk)"
    if "compareData F ord t oldData newData tableSchema = Some d"
  proof (intro conjI)
    from that have d: "d = \<lparr>DataDiff_TableName = t,
                 DataDiff_RowsAdded = rows_added F ord pk oldData newData,
                 DataDiff_RowsDeleted = rows_deleted F ord pk oldData newData,
                 DataDiff_RowsModified = rows_modified F ord pk oldData newData\<rparr>"
      by (simp add: compareData_primary_key[OF assms(1,2)] split: if_splits)
    show "\<forall>a\<in>set (DataDiff_RowsAdded d). last_of_key F pk newData (rowKey F a pk) = Some a"
      by (simp add: d rows_added_last)
    show "\<forall>a\<in>set (DataDiff_RowsDeleted d). last_of_key F pk oldData (rowKey F a pk) = Some a"
      by (simp add: d rows_deleted_last)
    show "\<forall>m\<in>set (DataDiff_RowsModified d).
               last_of_key F pk oldData (rowKey F (RowModification_OldRow m) pk)
                 = Some (RowModification_OldRow m) \<and>
               last_of_key F pk newData (rowKey F (RowModification_NewRow m) pk)
                 = Some (RowModification_NewRow m) \<and>
               rowKey F (RowModification_OldRow m) pk = rowKey F (RowModification_NewRow m) pk"
    proof (rule ballI)
      fix m assume "m \<in> set (DataDiff_RowsModified d)"
      then have "m \<in> set (rows_modified F ord pk oldData newData)"
        by (simp add: d)
      from rows_modified_last[OF this]
      show "last_of_key F pk oldData (rowKey F (RowModification_OldRow m) pk)
                 = Some (RowModification_OldRow m) \<and>
               last_of_key F pk newData (rowKey F (RowModification_NewRow m) pk)
                 = Some (RowModification_NewRow m) \<and>
               rowKey F (RowModification_OldRow m) pk = rowKey F (RowModification_NewRow m) pk" .
    qed
  qed
  have 4: "rows_by_key F pk rows k = last_of_key F pk rows k"
    by (rule rows_by_key_last)
  have 5: "rows_by_key F pk (xs @ r # ys @ r' # zs) (rowKey F r pk) = Some r'"
    if "\<forall>z\<in>set zs. rowKey F z pk \<noteq> rowKey F r' pk"
    by (simp only: rows_by_key_last last_of_key_later[OF k that])
  note 6 = compareData_primary_key_sets[OF assms(1,2)]
  from 1 2 3 4 5 6 show ?thesis
    by blast
qed

theorem C9_duplicate_key_last_row_wins_witness:
  "row_a \<noteq> row_b \<and>
   rows_by_key no_floats [''id''] [row_a, row_b] ''[1]'' = Some row_b \<and>
   data_orders_ok no_floats old_only_data_orders [row_a, row_b] [] (keyed_schema ''users'') \<and>
   compareData no_floats old_only_data_orders ''users'' [row_a, row_b] []
     (keyed_schema ''users'') =
     Some \<lparr>DataDiff_TableName = ''users'', DataDiff_RowsAdded = [],
            DataDiff_RowsDeleted = [row_b], DataDiff_RowsModified = []\<rparr> \<and>
   last_rows_deleted no_floats [''id''] [row_a, row_b] [] = {row_b} \<and>
   compareData no_floats users_data_orders ''users'' [row_a, row_b] [row_b]
     (keyed_schema ''users'') = None"
proof (intro conjI)
  have "row_a ''name'' \<noteq> row_b ''name''"
    by (simp add: row_a_def row_b_def)
  then show "row_a \<noteq> row_b" by auto
  have same: "map (row_get row_a) [''id''] = map (row_get row_b) [''id'']"
    by (simp add: row_get_def row_a_def row_b_def)
  have pk: "[''id''] \<noteq> ([] :: string list)"
    by simp
  from C9_duplicate_key_last_row_wins[where F = no_floats and tableSchema = "keyed_schema ''users''"
      and pk = "[''id'']" and r = row_a and r' = row_b and xs = "[]" and ys = "[]"
      and zs = "[]" and t = "''users''" and ord = old_only_data_orders and oldData = "[row_a, row_b]"
      and newData = "[]",
      OF pk_keyed pk same,
      THEN conjunct2, THEN conjunct2, THEN conjunct2, THEN conjunct2, THEN conjunct1]
  show "rows_by_key no_floats [''id''] [row_a, row_b] ''[1]'' = Some row_b"
    by (simp add: rowKey_row_a)
  show ok: "data_orders_ok no_floats old_only_data_orders [row_a, row_b] []
      (keyed_schema ''users'')"
    by (rule old_only_data_orders_ok)
  from C9_duplicate_key_last_row_wins[where F = no_floats and tableSchema = "keyed_schema ''users''"
      and pk = "[''id'']" and r = row_a and r' = row_b and xs = "[]" and ys = "[]"
      and zs = "[]" and t = "''users''" and ord = old_only_data_orders and oldData = "[row_a, row_b]"
      and newData = "[]",
      OF pk_keyed pk same, THEN conjunct1]
  show deleted: "compareData no_floats old_only_data_orders ''users'' [row_a, row_b] []
     (keyed_schema ''users'') =
     Some \<lparr>DataDiff_TableName = ''users'', DataDiff_RowsAdded = [],
            DataDiff_RowsDeleted = [row_b], DataDiff_RowsModified = []\<rparr>"
    by (simp add: compareData_row_b_deleted)
  from ok deleted
    C9_duplicate_key_last_row_wins[where F = no_floats and tableSchema = "keyed_schema ''users''"
      and pk = "[''id'']" and r = row_a and r' = row_b and xs = "[]" and ys = "[]"
      and zs = "[]" and t = "''users''" and ord = old_only_data_orders and oldData = "[row_a, row_b]"
      and newData = "[]"
      and d = "\<lparr>DataDiff_TableName = ''users'', DataDiff_RowsAdded = [],
            DataDiff_RowsDeleted = [row_b], DataDiff_RowsModified = []\<rparr>",
      OF pk_keyed pk same,
      THEN conjunct2, THEN conjunct2, THEN conjunct2, THEN conjunct2, THEN conjunct2]
  show "last_rows_deleted no_floats [''id''] [row_a, row_b] [] = {row_b}"
    by simp
  from C9_duplicate_key_last_row_wins[where F = no_floats and tableSchema = "keyed_schema ''users''"
      and pk = "[''id'']" and r = row_a and r' = row_b and xs = "[]" and ys = "[]"
      and zs = "[]" and t = "''users''" and ord = users_data_orders and oldData = "[row_a, row_b]"
      and newData = "[row_b]",
      OF pk_keyed pk same, THEN conjunct1]
  show "compareData no_floats users_data_orders ''users'' [row_a, row_b] [row_b]
     (keyed_schema ''users'') = None"
    by (simp add: compareData_row_b)
qed

text \<open>
  C10. Two schemas whose columns differ only in their positions, whose indexes differ
  only in their kinds and whose foreign keys are the same give no schema diff:
  \<open>columnsEqual\<close> does not read the position and \<open>indexesEqual\<close> does not read the kind.
\<close>

theorem C10_position_and_index_kind_ignored:
  assumes "list_all2 same_but_Position (TableSchema_Columns old) (TableSchema_Columns new)"
    and "list_all2 same_but_Type (TableSchema_Indexes old) (TableSchema_Indexes new)"
    and "TableSchema_ForeignKeys old = TableSchema_ForeignKeys new"
  shows "compareSchemas ord old new = None \<and>
         columnsEqual a (a\<lparr>Column_Position := p\<rparr>) \<and>
         indexesEqual i (i\<lparr>Index_Type := kind\<rparr>)"
proof (intro conjI)
  show "compareSchemas ord old new = None"
    by (rule compareSchemas_unchanged[OF assms])
  show "columnsEqual a (a\<lparr>Column_Position := p\<rparr>)"
    by (rule columnsEqual_Position) (simp add: same_but_Position_def)
  show "indexesEqual i (i\<lparr>Index_Type := kind\<rparr>)"
    by (rule indexesEqual_Type) (simp add: same_but_Type_def)
qed

theorem C10_position_and_index_kind_ignored_witness:
  "users_schema 1 ''BTREE'' \<noteq> users_schema 2 ''HASH'' \<and>
   compareSchemas users_schema_orders (users_schema 1 ''BTREE'') (users_schema 2 ''HASH'') = None"
proof
  show "users_schema 1 ''BTREE'' \<noteq> users_schema 2 ''HASH''"
    by (simp add: users_schema_def id_column_def)
  show "compareSchemas users_schema_orders (users_schema 1 ''BTREE'') (users_schema 2 ''HASH'')
          = None"
    by (rule C10_position_and_index_kind_ignored[THEN conjunct1])
       (simp_all add: users_schema_def id_column_def id_index_def same_but_Position_def
          same_but_Type_def)
qed

end
